theory Spec2Isabelle
  imports Main "HOL-Library.Word"
begin

unbundle bit_operations_syntax

section \<open>Data model\<close>

subsection \<open>Status codes, failed checks\<close>

text \<open>
  The status codes \<open>E::...\<close> that NodesConfigurationManager.cpp names; every other code
  of the enumeration is \<open>OTHER n\<close>.
\<close>

datatype Status =
    OK | SHUTDOWN | ACCESS | INVALID_PARAM | VERSION_MISMATCH | BADMSG | AGAIN | OTHER nat

text \<open>
  A call that does not return normally: a failed \<open>ld_check\<close> (taken as fatal), a failed
  \<open>ld_assert\<close> (compiled in debug builds only, as is the block under
  \<open>folly::kIsDebug\<close>), and the dereference of a null pointer.
\<close>

datatype failure = CheckFailed | AssertFailed | NullDeref

subsection \<open>NodesConfiguration\<close>

type_synonym version_t = "64 word"

text \<open>
  Modelled from the spec: membership/MembershipVersion is not among the sources; the spec
  reserves version zero as EMPTY.
\<close>

definition EMPTY_VERSION :: version_t where
  "EMPTY_VERSION = 0"

text \<open>
  Modelled from the spec: NodesConfiguration.h/.cpp are not among the sources. The spec gives
  a configuration a 64-bit version and an opaque payload.
\<close>

record 'p NodesConfiguration =
  version :: version_t
  payload :: 'p

definition getVersion :: "'p NodesConfiguration \<Rightarrow> version_t" where
  "getVersion nc = version nc"

text \<open>Modelled from the spec: \<open>with_version(v)\<close> is the same configuration at version \<open>v\<close>.\<close>

definition withVersion :: "'p NodesConfiguration \<Rightarrow> version_t \<Rightarrow> 'p NodesConfiguration" where
  "withVersion nc v = nc\<lparr>version := v\<rparr>"

subsection \<open>Callbacks and effects\<close>

text \<open>
  A completion callback is either the one a caller handed in (told apart by a tag) or one of
  the three lambdas the source builds: the tracing wrappers of \<open>update\<close> and \<open>overwrite\<close>
  (each holding the callback it wraps and what it captures) and the internal callback of
  \<open>advanceIntermediaryShardStates\<close>.
\<close>

datatype ('p, 'u) CompletionCb =
    CallerCb nat
  | UpdateTraceCb "('p, 'u) CompletionCb" "'u list"
  | OverwriteTraceCb "('p, 'u) CompletionCb" "'p NodesConfiguration"
  | AdvanceCb

datatype stat =
    updates_requested | overwrites_requested | config_received | serialization_errors
  | config_published | staged_version | pending_version | published_version | started

datatype trace_source = NCM_UPDATE | NCM_OVERWRITE

datatype NCMReportType = ADVANCE_INTERMEDIARY_SHARD_STATES_FAILED

text \<open>
  What a call does to the world outside the manager, in the order it does it: invoking a
  callback, posting a request, calling the store, the processor, the tracer, the statistics.
\<close>

datatype ('p, 'u) effect =
    Invoke "('p, 'u) CompletionCb" Status "'p NodesConfiguration option"
  | StatIncr stat
  | StatSet stat version_t
  | PostUpdateRequest "'u list" "('p, 'u) CompletionCb"
  | DepsOverwrite "'p NodesConfiguration" "('p, 'u) CompletionCb"
  | StoreUpdateConfig string version_t "('p, 'u) CompletionCb" "'p NodesConfiguration"
  | PostNewConfigRequest "'p NodesConfiguration"
  | PostProcessingFinishedRequest "'p NodesConfiguration"
  | UpdateNCMNodesConfiguration "'p NodesConfiguration"
  | FulfillOnAllWorkers "'p NodesConfiguration"
  | TracerTrace trace_source "'u list + 'p NodesConfiguration" "'p NodesConfiguration option"
  | RatelimitError Status
  | ReportEvent NCMReportType
  | DepsInit "'p NodesConfiguration option"
  | DcheckNotOnProcessor
  | InitializedTryWaitFor nat
  | InitializedPost
  | DepsShutdown
  | InitializedWait
  | ShutdownCompletedWait

subsection \<open>What the sources do not contain\<close>

datatype NodeRole = SEQUENCER | STORAGE

text \<open>
  The header with the flag constants, NodesConfiguration, the codec, the ShardStateTracker
  and the settings are not among the sources. They are parameters of the model: the six
  flag constants of OperationMode (of type \<open>Flags\<close>, here \<open>'f\<close>, a word of some
  width), the build mode, the payload of a default-constructed configuration, and the
  functions the manager calls. \<open>applyUpdate\<close> and \<open>serialize\<close> report failure as the
  source sees it (a null pointer, an empty string) and may set the thread's \<open>err\<close>, so
  they take the current \<open>err\<close> and return the new one. \<open>extractNCUpdate\<close> returns the
  tracker as well, in case it changes it.
\<close>

record ('f, 'p, 'u, 't) deps =
  kIsProposer :: 'f
  kIsCoordinator :: 'f
  kIsClient :: 'f
  kIsTooling :: 'f
  kIsStorageMember :: 'f
  kIsSequencer :: 'f
  kIsDebug :: bool
  default_payload :: 'p
  applyUpdate :: "'p NodesConfiguration \<Rightarrow> 'u \<Rightarrow> Status \<Rightarrow> 'p NodesConfiguration option \<times> Status"
  serialize :: "'p NodesConfiguration \<Rightarrow> Status \<Rightarrow> string \<times> Status"
  deserialize :: "string \<Rightarrow> 'p NodesConfiguration option"
  extractConfigVersion :: "string \<Rightarrow> version_t option"
  tracker_onNewConfig :: "'t \<Rightarrow> 'p NodesConfiguration \<Rightarrow> 't"
  extractNCUpdate :: "'t \<Rightarrow> int \<Rightarrow> 'u option \<times> 't"
  intermediary_shard_state_timeout :: int

text \<open>
  The flag constants are six masks, none empty and no two sharing a bit (the spec: a bitset
  over the six flags).
\<close>

fun disjoint_masks :: "'a::len word list \<Rightarrow> bool" where
  "disjoint_masks [] = True"
| "disjoint_masks (f # fs) = (list_all (\<lambda>g. f AND g = 0) fs \<and> disjoint_masks fs)"

definition flags_wf :: "('a::len word, 'p, 'u, 't) deps \<Rightarrow> bool" where
  "flags_wf D =
     (let fs = [kIsProposer D, kIsCoordinator D, kIsClient D, kIsTooling D,
                kIsStorageMember D, kIsSequencer D]
      in list_all (\<lambda>f. f \<noteq> 0) fs \<and> disjoint_masks fs)"

section \<open>OperationMode\<close>

text \<open>Modelled from the spec: a default-constructed mode has no flag (the header is absent).\<close>

definition OperationMode_default :: "'a::len word" where
  "OperationMode_default = 0"

definition setFlags :: "'a::len word \<Rightarrow> 'a word \<Rightarrow> 'a word" where
  "setFlags m flags = m OR flags"

definition hasFlags :: "'a::len word \<Rightarrow> 'a word \<Rightarrow> bool" where
  "hasFlags m flags = ((m AND flags) \<noteq> 0)"

definition onlyHasFlags :: "'a::len word \<Rightarrow> 'a word \<Rightarrow> bool" where
  "onlyHasFlags m flags = (m = flags)"

definition isClient :: "('a::len word, 'p, 'u, 't) deps \<Rightarrow> 'a word \<Rightarrow> bool" where
  "isClient D m = hasFlags m (kIsClient D)"

definition isClientOnly :: "('a::len word, 'p, 'u, 't) deps \<Rightarrow> 'a word \<Rightarrow> bool" where
  "isClientOnly D m = onlyHasFlags m (kIsClient D)"

definition isTooling :: "('a::len word, 'p, 'u, 't) deps \<Rightarrow> 'a word \<Rightarrow> bool" where
  "isTooling D m = hasFlags m (kIsTooling D)"

definition isStorageMember :: "('a::len word, 'p, 'u, 't) deps \<Rightarrow> 'a word \<Rightarrow> bool" where
  "isStorageMember D m = hasFlags m (kIsStorageMember D)"

definition isSequencer :: "('a::len word, 'p, 'u, 't) deps \<Rightarrow> 'a word \<Rightarrow> bool" where
  "isSequencer D m = hasFlags m (kIsSequencer D)"

definition isProposer :: "('a::len word, 'p, 'u, 't) deps \<Rightarrow> 'a word \<Rightarrow> bool" where
  "isProposer D m = hasFlags m (kIsProposer D)"

definition isCoordinator :: "('a::len word, 'p, 'u, 't) deps \<Rightarrow> 'a word \<Rightarrow> bool" where
  "isCoordinator D m = hasFlags m (kIsCoordinator D)"

definition isValid :: "('a::len word, 'p, 'u, 't) deps \<Rightarrow> 'a word \<Rightarrow> bool" where
  "isValid D m =
     (if isClient D m \<and> isCoordinator D m then False
      else if \<not> isClient D m \<and> \<not> isTooling D m \<and> \<not> isStorageMember D m \<and>
              \<not> isSequencer D m then False
      else True)"

text \<open>\<open>ld_assert(m.isValid())\<close> before a factory returns its mode.\<close>

definition assert_valid :: "('a::len word, 'p, 'u, 't) deps \<Rightarrow> 'a word \<Rightarrow> failure + 'a word" where
  "assert_valid D m = (if kIsDebug D \<and> \<not> isValid D m then Inl AssertFailed else Inr m)"

definition forClient :: "('a::len word, 'p, 'u, 't) deps \<Rightarrow> failure + 'a word" where
  "forClient D = assert_valid D (setFlags OperationMode_default (kIsClient D))"

definition forTooling :: "('a::len word, 'p, 'u, 't) deps \<Rightarrow> failure + 'a word" where
  "forTooling D =
     assert_valid D (setFlags OperationMode_default (kIsTooling D OR kIsProposer D))"

definition forNodeRoles :: "('a::len word, 'p, 'u, 't) deps \<Rightarrow> NodeRole set \<Rightarrow> failure + 'a word" where
  "forNodeRoles D roles =
     (let m = OperationMode_default;
          m = (if SEQUENCER \<in> roles then setFlags m (kIsSequencer D) else m);
          m = (if STORAGE \<in> roles then setFlags m (kIsStorageMember D) else m)
      in assert_valid D m)"

definition upgradeToProposer :: "('a::len word, 'p, 'u, 't) deps \<Rightarrow> 'a word \<Rightarrow> 'a word" where
  "upgradeToProposer D m = setFlags m (kIsProposer D)"

section \<open>NodesConfigurationManager\<close>

subsection \<open>State\<close>

text \<open>
  The members the state machine reads and writes, and the thread's \<open>err\<close>. A null
  \<open>shared_ptr\<close> is \<open>None\<close>. Every method takes the manager and returns it, with the
  effects of the call in their order. The log lines and the debug checks of the calling
  thread (\<open>dcheckOnNCM\<close>) have no counterpart here.
\<close>

record ('f, 'p, 't) ncm =
  mode :: 'f
  shutdown_signaled :: bool
  local_nodes_config :: "'p NodesConfiguration option"
  pending_nodes_config :: "'p NodesConfiguration option"
  staged_nodes_config :: "'p NodesConfiguration option"
  tracker :: 't
  err :: Status

definition shutdownSignaled :: "('f, 'p, 't) ncm \<Rightarrow> bool" where
  "shutdownSignaled s = shutdown_signaled s"

text \<open>Modelled from the spec: \<open>getConfig\<close> (in the absent header) is a snapshot of local.\<close>

definition getConfig :: "('f, 'p, 't) ncm \<Rightarrow> 'p NodesConfiguration option" where
  "getConfig s = local_nodes_config s"

subsection \<open>Lifecycle\<close>

text \<open>
  \<open>init\<close>: \<open>in_time\<close> is what \<open>initialized_.try_wait_for(10s)\<close> returns, which other
  threads decide. The result is the returned flag, the effects and the manager. The manager
  is taken to be owned by a shared pointer, as its factory leaves it, so that the check of
  \<open>weak_from_this()\<close> passes.
\<close>

definition init ::
  "('f, 'p, 't) ncm \<Rightarrow> 'p NodesConfiguration option \<Rightarrow> bool \<Rightarrow> bool \<Rightarrow>
     bool \<times> ('p, 'u) effect list \<times> ('f, 'p, 't) ncm" where
  "init s init_nc wait_until_initialized in_time =
     (if shutdownSignaled s then (True, [], s)
      else if wait_until_initialized
        then (in_time, [DepsInit init_nc, DcheckNotOnProcessor, InitializedTryWaitFor 10], s)
      else (True, [DepsInit init_nc], s))"

definition ncm_upgradeToProposer ::
  "('a::len word, 'p, 'u, 't) deps \<Rightarrow> ('a word, 'p, 't) ncm \<Rightarrow> ('a word, 'p, 't) ncm" where
  "ncm_upgradeToProposer D s = s\<lparr>mode := upgradeToProposer D (mode s)\<rparr>"

definition shouldDoConsistentConfigFetch ::
  "('a::len word, 'p, 'u, 't) deps \<Rightarrow> ('a word, 'p, 't) ncm \<Rightarrow> bool" where
  "shouldDoConsistentConfigFetch D s = (isStorageMember D (mode s) \<and> getConfig s = None)"

definition shutdown :: "('f, 'p, 't) ncm \<Rightarrow> ('p, 'u) effect list \<times> ('f, 'p, 't) ncm" where
  "shutdown s =
     ([DepsShutdown, InitializedWait, ShutdownCompletedWait], s\<lparr>shutdown_signaled := True\<rparr>)"

subsection \<open>update and overwrite\<close>

text \<open>The vector overload of \<open>update\<close>.\<close>

definition update ::
  "('a::len word, 'p, 'u, 't) deps \<Rightarrow> ('a word, 'p, 't) ncm \<Rightarrow> 'u list \<Rightarrow>
     ('p, 'u) CompletionCb \<Rightarrow> ('p, 'u) effect list \<times> ('a word, 'p, 't) ncm" where
  "update D s updates callback =
     (if shutdownSignaled s then ([Invoke callback SHUTDOWN None], s)
      else if \<not> isProposer D (mode s) then ([Invoke callback ACCESS None], s)
      else ([StatIncr updates_requested,
             PostUpdateRequest updates (UpdateTraceCb callback updates)], s))"

text \<open>The overload of \<open>update\<close> that takes one update.\<close>

definition update_single ::
  "('a::len word, 'p, 'u, 't) deps \<Rightarrow> ('a word, 'p, 't) ncm \<Rightarrow> 'u \<Rightarrow>
     ('p, 'u) CompletionCb \<Rightarrow> ('p, 'u) effect list \<times> ('a word, 'p, 't) ncm" where
  "update_single D s u callback =
     (if shutdownSignaled s then ([Invoke callback SHUTDOWN None], s)
      else update D s [u] callback)"

text \<open>
  The body of \<open>wrapped_callback\<close> in \<open>update\<close>: \<open>ncm\<close> is what \<open>ncm.lock()\<close> finds when
  the callback runs (\<open>None\<close>: the manager is gone). The wrapped callback runs at scope exit,
  after the trace.
\<close>

definition update_wrapped_callback ::
  "('f, 'p, 't) ncm option \<Rightarrow> ('p, 'u) CompletionCb \<Rightarrow> 'u list \<Rightarrow> Status \<Rightarrow>
     'p NodesConfiguration option \<Rightarrow> ('p, 'u) effect list" where
  "update_wrapped_callback ncm cb updates_str status nc =
     (if status \<noteq> OK then []
      else case ncm of
        None \<Rightarrow> []
      | Some s \<Rightarrow> if shutdownSignaled s then [] else [TracerTrace NCM_UPDATE (Inl updates_str) nc])
     @ [Invoke cb status nc]"

definition overwrite ::
  "('a::len word, 'p, 'u, 't) deps \<Rightarrow> ('a word, 'p, 't) ncm \<Rightarrow> 'p NodesConfiguration option \<Rightarrow>
     ('p, 'u) CompletionCb \<Rightarrow> ('p, 'u) effect list \<times> ('a word, 'p, 't) ncm" where
  "overwrite D s configuration callback =
     (if shutdownSignaled s then ([Invoke callback SHUTDOWN None], s)
      else if \<not> isTooling D (mode s) then ([Invoke callback ACCESS None], s)
      else case configuration of
        None \<Rightarrow> ([Invoke callback INVALID_PARAM None], s)
      | Some c \<Rightarrow>
          ([StatIncr overwrites_requested, DepsOverwrite c (OverwriteTraceCb callback c)], s))"

definition overwrite_wrapped_callback ::
  "('f, 'p, 't) ncm option \<Rightarrow> ('p, 'u) CompletionCb \<Rightarrow> 'p NodesConfiguration \<Rightarrow> Status \<Rightarrow>
     'p NodesConfiguration option \<Rightarrow> ('p, 'u) effect list" where
  "overwrite_wrapped_callback ncm cb configuration status nc =
     (if status \<noteq> OK then []
      else case ncm of
        None \<Rightarrow> []
      | Some s \<Rightarrow>
          if shutdownSignaled s then [] else [TracerTrace NCM_OVERWRITE (Inr configuration) nc])
     @ [Invoke cb status nc]"

subsection \<open>The version pipeline\<close>

definition isProcessingEqualOrHigherVersion :: "('f, 'p, 't) ncm \<Rightarrow> version_t \<Rightarrow> bool" where
  "isProcessingEqualOrHigherVersion s v =
     (case pending_nodes_config s of None \<Rightarrow> False | Some p \<Rightarrow> getVersion p \<ge> v)"

definition hasProcessedVersion :: "('f, 'p, 't) ncm \<Rightarrow> version_t \<Rightarrow> bool" where
  "hasProcessedVersion s v =
     (case local_nodes_config s of None \<Rightarrow> False | Some l \<Rightarrow> getVersion l \<ge> v)"

definition shouldStageVersion :: "('f, 'p, 't) ncm \<Rightarrow> version_t \<Rightarrow> bool" where
  "shouldStageVersion s v =
     ((case staged_nodes_config s of None \<Rightarrow> True | Some c \<Rightarrow> getVersion c < v) \<and>
      \<not> isProcessingEqualOrHigherVersion s v \<and>
      \<not> hasProcessedVersion s v)"

text \<open>
  \<open>maybeProcessStagedConfig\<close>: moving the staged pointer leaves \<open>staged_nodes_config_\<close> null.
  The continuation of the fan-out is \<open>fanout_completed\<close> below.
\<close>

definition maybeProcessStagedConfig ::
  "('f, 'p, 't) ncm \<Rightarrow> failure + ('p, 'u) effect list \<times> ('f, 'p, 't) ncm" where
  "maybeProcessStagedConfig s =
     (case staged_nodes_config s of
        None \<Rightarrow> Inr ([], s)
      | Some c \<Rightarrow>
          if pending_nodes_config s \<noteq> None then Inr ([], s)
          else if hasProcessedVersion s (getVersion c) then Inl CheckFailed
          else Inr ([StatSet pending_version (getVersion c),
                     UpdateNCMNodesConfiguration c,
                     FulfillOnAllWorkers c],
                    s\<lparr>pending_nodes_config := Some c, staged_nodes_config := None\<rparr>))"

text \<open>
  The continuation that runs when every worker has processed the configuration; \<open>ncm\<close> is
  what \<open>ncm_weak_ptr.lock()\<close> finds.
\<close>

definition fanout_completed ::
  "('f, 'p, 't) ncm option \<Rightarrow> 'p NodesConfiguration \<Rightarrow> ('p, 'u) effect list" where
  "fanout_completed ncm pending_nodes_config' =
     (case ncm of
        None \<Rightarrow> []
      | Some s \<Rightarrow>
          if shutdownSignaled s then []
          else [PostProcessingFinishedRequest pending_nodes_config'])"

definition onProcessingFinished ::
  "('f, 'p, 't) ncm \<Rightarrow> 'p NodesConfiguration option \<Rightarrow>
     failure + ('p, 'u) effect list \<times> ('f, 'p, 't) ncm" where
  "onProcessingFinished s new_config =
     (case new_config of
        None \<Rightarrow> Inl CheckFailed
      | Some nc \<Rightarrow>
          let new_version = getVersion nc in
          (case pending_nodes_config s of
             None \<Rightarrow> Inl CheckFailed
           | Some p \<Rightarrow>
               if new_version \<noteq> getVersion p then Inl CheckFailed
               else if hasProcessedVersion s new_version then Inl CheckFailed
               else
                 let s1 = s\<lparr>local_nodes_config := Some p, pending_nodes_config := None\<rparr> in
                 (case maybeProcessStagedConfig s1 of
                    Inl f \<Rightarrow> Inl f
                  | Inr (es, s2) \<Rightarrow>
                      Inr ([InitializedPost, StatIncr config_published,
                            StatSet published_version (getVersion p)] @ es, s2))))"

subsection \<open>Intermediary shard states\<close>

text \<open>
  \<open>advanceIntermediaryShardStates\<close>: \<open>now\<close> is what \<open>SystemTimestamp::now()\<close> reads. The
  extracted update goes to the overload of \<open>update\<close> for one update, with the internal
  callback.
\<close>

definition advanceIntermediaryShardStates ::
  "('a::len word, 'p, 'u, 't) deps \<Rightarrow> int \<Rightarrow> ('a word, 'p, 't) ncm \<Rightarrow>
     ('p, 'u) effect list \<times> ('a word, 'p, 't) ncm" where
  "advanceIntermediaryShardStates D now s =
     (if \<not> isProposer D (mode s) \<or> shutdownSignaled s then ([], s)
      else
        let till_timestamp = now - intermediary_shard_state_timeout D;
            (update_opt, tr) = extractNCUpdate D (tracker s) till_timestamp;
            s1 = s\<lparr>tracker := tr\<rparr>
        in case update_opt of
             None \<Rightarrow> ([], s1)
           | Some u \<Rightarrow> update_single D s1 u AdvanceCb)"

text \<open>The body of the callback that \<open>advanceIntermediaryShardStates\<close> hands to \<open>update\<close>.\<close>

definition advance_callback ::
  "('f, 'p, 't) ncm option \<Rightarrow> Status \<Rightarrow> 'p NodesConfiguration option \<Rightarrow> ('p, 'u) effect list" where
  "advance_callback ncm status nc =
     (if status = OK \<or> status = VERSION_MISMATCH then []
      else RatelimitError status #
        (case ncm of
           None \<Rightarrow> []
         | Some s \<Rightarrow>
             if shutdownSignaled s then []
             else [ReportEvent ADVANCE_INTERMEDIARY_SHARD_STATES_FAILED]))"

subsection \<open>Staging a new configuration\<close>

definition onNewConfig ::
  "('a::len word, 'p, 'u, 't) deps \<Rightarrow> int \<Rightarrow> ('a word, 'p, 't) ncm \<Rightarrow>
     'p NodesConfiguration option \<Rightarrow> failure + ('p, 'u) effect list \<times> ('a word, 'p, 't) ncm" where
  "onNewConfig D now s new_config =
     (case new_config of
        None \<Rightarrow> Inl CheckFailed
      | Some nc \<Rightarrow>
          if shutdownSignaled s then Inr ([], s)
          else
            let new_config_version = getVersion nc in
            if \<not> shouldStageVersion s new_config_version then Inr ([], s)
            else
              let s1 = s\<lparr>staged_nodes_config := Some nc\<rparr>;
                  s2 = s1\<lparr>tracker := tracker_onNewConfig D (tracker s1) nc\<rparr>;
                  (es_adv, s3) = advanceIntermediaryShardStates D now s2
              in (case staged_nodes_config s3 of
                    None \<Rightarrow> Inl NullDeref
                  | Some st \<Rightarrow>
                      (case maybeProcessStagedConfig s3 of
                         Inl f \<Rightarrow> Inl f
                       | Inr (es, s4) \<Rightarrow>
                           Inr (es_adv @ [StatSet staged_version (getVersion st)] @ es, s4))))"

subsection \<open>Proposing an update\<close>

text \<open>The file-local \<open>max\<close> of two configuration pointers.\<close>

fun max_nc ::
  "'p NodesConfiguration option \<Rightarrow> 'p NodesConfiguration option \<Rightarrow> 'p NodesConfiguration option"
  where
  "max_nc None rhs = rhs"
| "max_nc lhs None = lhs"
| "max_nc (Some l) (Some r) = (if getVersion l > getVersion r then Some l else Some r)"

text \<open>
  Modelled from the spec: a default-constructed NodesConfiguration (its constructor is not
  among the sources) is the empty configuration, at the EMPTY version.
\<close>

definition NodesConfiguration_default ::
  "('f, 'p, 'u, 't) deps \<Rightarrow> 'p NodesConfiguration" where
  "NodesConfiguration_default D = \<lparr>version = EMPTY_VERSION, payload = default_payload D\<rparr>"

definition getLatestKnownConfig ::
  "('f, 'p, 'u, 't) deps \<Rightarrow> ('f, 'p, 't) ncm \<Rightarrow> 'p NodesConfiguration" where
  "getLatestKnownConfig D s =
     (let c = max_nc (getConfig s) (pending_nodes_config s);
          c = max_nc c (staged_nodes_config s)
      in case c of None \<Rightarrow> NodesConfiguration_default D | Some c \<Rightarrow> c)"

text \<open>
  The loop of \<open>onUpdateRequest\<close> over the updates: the configuration so far and the thread's
  \<open>err\<close> go in; a null result of \<open>applyUpdate\<close> ends the loop.
\<close>

fun apply_updates ::
  "('f, 'p, 'u, 't) deps \<Rightarrow> 'p NodesConfiguration \<Rightarrow> 'u list \<Rightarrow> Status \<Rightarrow>
     'p NodesConfiguration option \<times> Status" where
  "apply_updates D new_config [] e = (Some new_config, e)"
| "apply_updates D new_config (u # us) e =
     (case applyUpdate D new_config u e of
        (None, e') \<Rightarrow> (None, e')
      | (Some new_config', e') \<Rightarrow> apply_updates D new_config' us e')"

text \<open>
  \<open>onUpdateRequest\<close>. The effect \<open>StoreUpdateConfig blob base_version callback new_config\<close> is
  the call of \<open>store_->updateConfig\<close>; its last two arguments are what the store callback
  captures.
\<close>

definition onUpdateRequest ::
  "('a::len word, 'p, 'u, 't) deps \<Rightarrow> ('a word, 'p, 't) ncm \<Rightarrow> 'u list \<Rightarrow>
     ('p, 'u) CompletionCb \<Rightarrow> ('p, 'u) effect list \<times> ('a word, 'p, 't) ncm" where
  "onUpdateRequest D s updates callback =
     (if \<not> isProposer D (mode s) then ([Invoke callback ACCESS None], s)
      else
        let current_config = getLatestKnownConfig D s;
            current_version = getVersion current_config
        in case apply_updates D current_config updates (err s) of
             (None, e) \<Rightarrow> ([Invoke callback e None], s\<lparr>err := e\<rparr>)
           | (Some new_config, e) \<Rightarrow>
               let new_config = withVersion new_config (current_version + 1);
                   (serialized, e') = serialize D new_config e
               in if serialized = [] then ([Invoke callback e' None], s\<lparr>err := e'\<rparr>)
                  else ([StoreUpdateConfig serialized current_version callback new_config],
                        s\<lparr>err := e'\<rparr>))"



section \<open>SequencerWorkflow\<close>

text \<open>
  The fields of a workflow; \<open>node_index_t\<close> and \<open>SequencingState\<close> (declared in headers that
  are not among the sources) are the type parameters.
\<close>

record ('n, 'q) SequencerWorkflow =
  target_op_state :: 'q
  node :: 'n
  current_sequencing_state :: 'q
  skip_safety_check :: bool

text \<open>
  \<open>operator=(SequencerWorkflow&& wf)\<close>, called as \<open>a = std::move(b)\<close>: the two objects go in,
  the two objects and the returned reference (to the left or the right operand) come out.
\<close>

datatype operand = Lhs | Rhs

definition move_assign ::
  "('n, 'q) SequencerWorkflow \<Rightarrow> ('n, 'q) SequencerWorkflow \<Rightarrow>
     operand \<times> ('n, 'q) SequencerWorkflow \<times> ('n, 'q) SequencerWorkflow" where
  "move_assign this wf' = (Lhs, this, wf')"

section \<open>Auxiliary notions\<close>

text \<open>
  The manager as its constructor leaves it: the given mode, no configuration in any slot,
  shutdown not signaled.
\<close>

definition initial_ncm :: "'f \<Rightarrow> 't \<Rightarrow> ('f, 'p, 't) ncm" where
  "initial_ncm m tr =
     \<lparr>mode = m, shutdown_signaled = False, local_nodes_config = None,
      pending_nodes_config = None, staged_nodes_config = None, tracker = tr, err = OK\<rparr>"

text \<open>The effects that post an update request or reach the store.\<close>

fun reaches_store :: "('p, 'u) effect \<Rightarrow> bool" where
  "reaches_store (PostUpdateRequest us cb) = True"
| "reaches_store (DepsOverwrite c cb) = True"
| "reaches_store (StoreUpdateConfig b v cb c) = True"
| "reaches_store e = False"

text \<open>
  The spec's reading of a batch: the updates are applied from the left, each to the result
  of the one before, and a rejected update fails the batch.
\<close>

definition spec_apply_batch ::
  "('f, 'p, 'u, 't) deps \<Rightarrow> 'p NodesConfiguration \<Rightarrow> 'u list \<Rightarrow> Status \<Rightarrow>
     'p NodesConfiguration option \<times> Status" where
  "spec_apply_batch D base updates e =
     foldl (\<lambda>acc u. case acc of
                       (None, e') \<Rightarrow> (None, e')
                     | (Some nc, e') \<Rightarrow> applyUpdate D nc u e')
       (Some base, e) updates"

text \<open>
  The order of the pipeline: of two slots that both hold a configuration, the first holds
  the strictly lower version. The invariant asks it of local and pending, of pending and
  staged, and of local and staged.
\<close>

definition version_lt ::
  "'p NodesConfiguration option \<Rightarrow> 'p NodesConfiguration option \<Rightarrow> bool" where
  "version_lt a b =
     (case a of
        None \<Rightarrow> True
      | Some x \<Rightarrow> (case b of None \<Rightarrow> True | Some y \<Rightarrow> getVersion x < getVersion y))"

definition pipeline_ordered :: "('f, 'p, 't) ncm \<Rightarrow> bool" where
  "pipeline_ordered s =
     (version_lt (local_nodes_config s) (pending_nodes_config s) \<and>
      version_lt (pending_nodes_config s) (staged_nodes_config s) \<and>
      version_lt (local_nodes_config s) (staged_nodes_config s))"

text \<open>
  The transitions of the manager on its own thread, as events: a delivered configuration
  (with the clock reading), the end of a fan-out, a call of \<open>maybeProcessStagedConfig\<close>,
  the upgrade to proposer and the shutdown signal. \<open>run\<close> takes the manager through a
  list of events and collects the effects; it stops at the first failed check.
\<close>

datatype 'p pipeline_event =
    NewConfig int "'p NodesConfiguration"
  | ProcessingFinished "'p NodesConfiguration"
  | ProcessStaged
  | UpgradeToProposer
  | Shutdown

fun step ::
  "('a::len word, 'p, 'u, 't) deps \<Rightarrow> ('a word, 'p, 't) ncm \<Rightarrow> 'p pipeline_event \<Rightarrow>
     failure + ('p, 'u) effect list \<times> ('a word, 'p, 't) ncm" where
  "step D s (NewConfig now nc) = onNewConfig D now s (Some nc)"
| "step D s (ProcessingFinished nc) = onProcessingFinished s (Some nc)"
| "step D s ProcessStaged = maybeProcessStagedConfig s"
| "step D s UpgradeToProposer = Inr ([], ncm_upgradeToProposer D s)"
| "step D s Shutdown = Inr (shutdown s)"

fun run ::
  "('a::len word, 'p, 'u, 't) deps \<Rightarrow> ('a word, 'p, 't) ncm \<Rightarrow> 'p pipeline_event list \<Rightarrow>
     failure + ('p, 'u) effect list \<times> ('a word, 'p, 't) ncm" where
  "run D s [] = Inr ([], s)"
| "run D s (ev # evs) =
     (case step D s ev of
        Inl f \<Rightarrow> Inl f
      | Inr (es, s') \<Rightarrow>
          (case run D s' evs of
             Inl f \<Rightarrow> Inl f
           | Inr (es', s'') \<Rightarrow> Inr (es @ es', s'')))"

text \<open>
  The versions a list of effects stages (the staged-version gauge is set), hands to the
  workers (the fan-out is started) and publishes (the published-version gauge is set), in
  order.
\<close>

definition staged_of :: "('p, 'u) effect \<Rightarrow> version_t option" where
  "staged_of e =
     (case e of StatSet st v \<Rightarrow> if st = staged_version then Some v else None | _ \<Rightarrow> None)"

definition staged_versions :: "('p, 'u) effect list \<Rightarrow> version_t list" where
  "staged_versions es = List.map_filter staged_of es"

definition fanout_of :: "('p, 'u) effect \<Rightarrow> version_t option" where
  "fanout_of e = (case e of FulfillOnAllWorkers c \<Rightarrow> Some (getVersion c) | _ \<Rightarrow> None)"

definition fanout_versions :: "('p, 'u) effect list \<Rightarrow> version_t list" where
  "fanout_versions es = List.map_filter fanout_of es"

definition published_of :: "('p, 'u) effect \<Rightarrow> version_t option" where
  "published_of e =
     (case e of StatSet st v \<Rightarrow> if st = published_version then Some v else None | _ \<Rightarrow> None)"

definition published_versions :: "('p, 'u) effect list \<Rightarrow> version_t list" where
  "published_versions es = List.map_filter published_of es"

section \<open>A concrete instance\<close>

text \<open>
  One instance of the parameters, on which the theorems below are exercised: 16-bit flags,
  configurations whose payload is a number, updates that add to it (zero is rejected), a
  codec that fails on payload zero and on the empty string.
\<close>

definition example_deps :: "(16 word, nat, nat, nat) deps" where
  "example_deps =
     \<lparr>kIsProposer = 1, kIsCoordinator = 2, kIsClient = 16, kIsTooling = 32,
      kIsStorageMember = 64, kIsSequencer = 128,
      kIsDebug = False,
      default_payload = 0,
      applyUpdate = (\<lambda>nc u e.
        if u = 0 then (None, INVALID_PARAM)
        else (Some \<lparr>version = version nc + 1, payload = payload nc + u\<rparr>, e)),
      serialize = (\<lambda>nc e. if payload nc = 0 then ([], BADMSG) else (''nc'', e)),
      deserialize = (\<lambda>str. if str = [] then None
                            else Some \<lparr>version = of_nat (length str), payload = 1\<rparr>),
      extractConfigVersion = (\<lambda>str. if str = [] then None else Some (of_nat (length str))),
      tracker_onNewConfig = (\<lambda>t nc. Suc t),
      extractNCUpdate = (\<lambda>t till. if 0 \<le> till \<and> 0 < t then (Some 1, t) else (None, t)),
      intermediary_shard_state_timeout = 30\<rparr>"

type_synonym example_ncm = "(16 word, nat, nat) ncm"

type_synonym example_effect = "(nat, nat) effect"

definition example_nc :: "nat \<Rightarrow> nat NodesConfiguration" where
  "example_nc v = \<lparr>version = of_nat v, payload = v\<rparr>"

text \<open>A manager in the given mode holding the given configurations (local, pending, staged).\<close>

definition example_state ::
  "16 word \<Rightarrow> nat NodesConfiguration option \<Rightarrow> nat NodesConfiguration option \<Rightarrow>
     nat NodesConfiguration option \<Rightarrow> example_ncm" where
  "example_state m l p st =
     (initial_ncm m 1)\<lparr>local_nodes_config := l, pending_nodes_config := p,
                       staged_nodes_config := st\<rparr>"

section \<open>OperationMode: validity and the Proposer flag\<close>

lemma hasFlags_setFlags_mono: "hasFlags m p \<Longrightarrow> hasFlags (setFlags m f) p"
  by (auto simp: hasFlags_def setFlags_def bit.conj_disj_distrib2 or_eq_0_iff)

lemma hasFlags_setFlags_iff: "hasFlags (setFlags m f) p \<longleftrightarrow> hasFlags m p \<or> hasFlags f p"
  by (auto simp: hasFlags_def setFlags_def bit.conj_disj_distrib2 or_eq_0_iff)

lemma hasFlags_zero: "\<not> hasFlags 0 p"
  by (simp add: hasFlags_def)

lemma setFlags_only_sets: "m AND setFlags m f = m"
  by (simp add: setFlags_def)

lemma setFlags_zero: "setFlags 0 f = f"
  by (simp add: setFlags_def)

lemma flags_wfD:
  assumes "flags_wf D"
  shows "kIsProposer D \<noteq> 0" "kIsCoordinator D \<noteq> 0" "kIsClient D \<noteq> 0" "kIsTooling D \<noteq> 0"
    "kIsStorageMember D \<noteq> 0" "kIsSequencer D \<noteq> 0"
    "kIsProposer D AND kIsCoordinator D = 0" "kIsProposer D AND kIsClient D = 0"
    "kIsProposer D AND kIsTooling D = 0"
    "kIsCoordinator D AND kIsClient D = 0" "kIsCoordinator D AND kIsTooling D = 0"
    "kIsClient D AND kIsTooling D = 0"
  using assms by (simp_all add: flags_wf_def Let_def)

lemma example_flags_wf: "flags_wf example_deps"
  by (simp add: flags_wf_def example_deps_def)

text \<open>
  C7. A mode built from the empty role set is the default mode, which is not valid (a debug
  build stops at the assertion instead of returning it); no mode with both the Client and the
  Coordinator flag is valid, so the client mode with the Coordinator flag added is not; the
  tooling mode has the Proposer flag; and \<open>setFlags\<close> and \<open>upgradeToProposer\<close>, the only
  operations that change a mode, keep every bit that is set, the Proposer flag among them.
\<close>

theorem OperationMode_valid_monotonic:
  fixes D :: "('a::len word, 'p, 'u, 't) deps"
  shows
  "forNodeRoles D {} = (if kIsDebug D then Inl AssertFailed else Inr OperationMode_default) \<and>
   \<not> isValid D OperationMode_default \<and>
   (\<forall>m. isClient D m \<and> isCoordinator D m \<longrightarrow> \<not> isValid D m) \<and>
   (flags_wf D \<longrightarrow>
      forClient D = Inr (kIsClient D) \<and>
      \<not> isValid D (setFlags (kIsClient D) (kIsCoordinator D)) \<and>
      forTooling D = Inr (kIsTooling D OR kIsProposer D) \<and>
      isProposer D (kIsTooling D OR kIsProposer D)) \<and>
   (\<forall>m f. isProposer D m \<longrightarrow>
      isProposer D (setFlags m f) \<and> isProposer D (upgradeToProposer D m)) \<and>
   (\<forall>m f. m AND setFlags m f = m \<and> m AND upgradeToProposer D m = m)"
proof -
  have inv0: "\<not> isValid D OperationMode_default"
    by (simp add: isValid_def isClient_def isTooling_def isStorageMember_def isSequencer_def
        OperationMode_default_def hasFlags_zero)
  have roles: "forNodeRoles D {} =
      (if kIsDebug D then Inl AssertFailed else Inr OperationMode_default)"
    using inv0 by (simp add: forNodeRoles_def assert_valid_def)
  have both: "\<forall>m. isClient D m \<and> isCoordinator D m \<longrightarrow> \<not> isValid D m"
    by (simp add: isValid_def)
  have mono: "\<forall>m f. isProposer D m \<longrightarrow>
      isProposer D (setFlags m f) \<and> isProposer D (upgradeToProposer D m)"
    by (simp add: isProposer_def upgradeToProposer_def hasFlags_setFlags_mono)
  have bits: "\<forall>m f. m AND setFlags m f = m \<and> m AND upgradeToProposer D m = m"
    by (simp add: upgradeToProposer_def setFlags_only_sets)
  have wf: "forClient D = Inr (kIsClient D) \<and>
      \<not> isValid D (setFlags (kIsClient D) (kIsCoordinator D)) \<and>
      forTooling D = Inr (kIsTooling D OR kIsProposer D) \<and>
      isProposer D (kIsTooling D OR kIsProposer D)" if w: "flags_wf D"
  proof -
    note f = flags_wfD [OF w]
    have c: "isValid D (kIsClient D)"
      using f by (simp add: isValid_def isClient_def isCoordinator_def hasFlags_def
          and.commute)
    have t: "isValid D (kIsTooling D OR kIsProposer D)"
      using f by (simp add: isValid_def isClient_def isCoordinator_def isTooling_def
          hasFlags_def and.commute bit.conj_disj_distrib bit.conj_disj_distrib2 or_eq_0_iff)
    have cc: "\<not> isValid D (setFlags (kIsClient D) (kIsCoordinator D))"
      using f by (simp add: isValid_def isClient_def isCoordinator_def hasFlags_setFlags_iff)
        (simp add: hasFlags_def)
    have p: "isProposer D (kIsTooling D OR kIsProposer D)"
      using f by (simp add: isProposer_def hasFlags_def bit.conj_disj_distrib2 or_eq_0_iff)
    show ?thesis
      using c t cc p
      by (simp add: forClient_def forTooling_def assert_valid_def setFlags_zero
          OperationMode_default_def)
  qed
  show ?thesis using roles inv0 both mono bits wf by blast
qed

theorem OperationMode_valid_monotonic_witness:
  "flags_wf example_deps \<and>
   forNodeRoles example_deps {} = Inr 0 \<and>
   forNodeRoles (example_deps\<lparr>kIsDebug := True\<rparr>) {} = Inl AssertFailed \<and>
   \<not> isValid example_deps 0 \<and>
   isClient example_deps 18 \<and> isCoordinator example_deps 18 \<and> \<not> isValid example_deps 18 \<and>
   forTooling example_deps = Inr 33 \<and> isProposer example_deps 33 \<and>
   isProposer example_deps (setFlags 33 64) \<and>
   isProposer example_deps (upgradeToProposer example_deps 33)"
  using OperationMode_valid_monotonic [of example_deps]
    OperationMode_valid_monotonic [of "example_deps\<lparr>kIsDebug := True\<rparr>"]
    example_flags_wf
  by (simp add: example_deps_def OperationMode_default_def isClient_def isCoordinator_def
      hasFlags_def)

section \<open>Lifecycle: init after shutdown\<close>

text \<open>
  C10. Once shutdown has been signaled, \<open>init\<close> returns true whatever the initial
  configuration, whether or not the caller asked to wait, and whatever the latch would have
  answered; it has no effect (no init request reaches the dependency layer, the latch is not
  waited on) and leaves the manager as it was.
\<close>

theorem init_after_shutdown:
  "shutdownSignaled s \<Longrightarrow>
     (init s init_nc wait_until_initialized in_time
        :: bool \<times> ('p, 'u) effect list \<times> ('f, 'p, 't) ncm) = (True, [], s)"
  by (simp add: init_def)

theorem init_after_shutdown_witness:
  "shutdownSignaled ((example_state 16 None None None)\<lparr>shutdown_signaled := True\<rparr>) \<and>
   (init ((example_state 16 None None None)\<lparr>shutdown_signaled := True\<rparr>)
       (Some (example_nc 7)) True False :: bool \<times> example_effect list \<times> example_ncm) =
     (True, [], (example_state 16 None None None)\<lparr>shutdown_signaled := True\<rparr>) \<and>
   (init (example_state 16 None None None) (Some (example_nc 7)) True False
       :: bool \<times> example_effect list \<times> example_ncm) =
     (False, [DepsInit (Some (example_nc 7)), DcheckNotOnProcessor, InitializedTryWaitFor 10],
      example_state 16 None None None)"
  using init_after_shutdown [where 'u = nat, of "(example_state 16 None None None)\<lparr>shutdown_signaled := True\<rparr>"
      "Some (example_nc 7)" True False]
  by (simp add: shutdownSignaled_def example_state_def initial_ncm_def init_def)

section \<open>SequencerWorkflow: move assignment\<close>

text \<open>
  C9. Move assignment \<open>a = std::move(b)\<close> returns a reference to \<open>a\<close> and leaves every
  field of \<open>a\<close> (target operational state, node index, current sequencing state,
  skip_safety_check) as it was, whatever \<open>b\<close> holds.
\<close>

theorem move_assign_ignores_rhs:
  "move_assign a b = (Lhs, a, b) \<and>
   target_op_state (fst (snd (move_assign a b))) = target_op_state a \<and>
   node (fst (snd (move_assign a b))) = node a \<and>
   current_sequencing_state (fst (snd (move_assign a b))) = current_sequencing_state a \<and>
   skip_safety_check (fst (snd (move_assign a b))) = skip_safety_check a"
  by (simp add: move_assign_def)

theorem move_assign_ignores_rhs_witness:
  "fst (snd (move_assign
     \<lparr>target_op_state = False, node = (1 :: nat), current_sequencing_state = False,
      skip_safety_check = False\<rparr>
     \<lparr>target_op_state = True, node = 2, current_sequencing_state = True,
      skip_safety_check = True\<rparr>)) =
     \<lparr>target_op_state = False, node = 1, current_sequencing_state = False,
      skip_safety_check = False\<rparr>"
  using move_assign_ignores_rhs [of
     "\<lparr>target_op_state = False, node = (1 :: nat), current_sequencing_state = False,
      skip_safety_check = False\<rparr>"
     "\<lparr>target_op_state = True, node = 2, current_sequencing_state = True,
      skip_safety_check = True\<rparr>"]
  by simp

section \<open>Mode gating of update and overwrite\<close>

text \<open>
  C6. \<open>update\<close> (both overloads) calls the callback with (SHUTDOWN, null) when shutdown has
  been signaled, and otherwise with (ACCESS, null) when the mode lacks the Proposer flag.
  \<open>overwrite\<close> calls it with (SHUTDOWN, null) when shutdown has been signaled, otherwise
  with (ACCESS, null) when the mode lacks the Tooling flag, otherwise with
  (INVALID_PARAM, null) when the configuration is null. In each of these cases the callback
  is all that happens: no request is posted, the store is not reached, the manager is
  unchanged.
\<close>

theorem update_overwrite_gating:
  fixes D :: "('a::len word, 'p, 'u, 't) deps"
  shows
  "(shutdownSignaled s \<longrightarrow>
      update D s updates cb = ([Invoke cb SHUTDOWN None], s) \<and>
      update_single D s u cb = ([Invoke cb SHUTDOWN None], s) \<and>
      overwrite D s nc cb = ([Invoke cb SHUTDOWN None], s)) \<and>
   (\<not> shutdownSignaled s \<and> \<not> isProposer D (mode s) \<longrightarrow>
      update D s updates cb = ([Invoke cb ACCESS None], s) \<and>
      update_single D s u cb = ([Invoke cb ACCESS None], s)) \<and>
   (\<not> shutdownSignaled s \<and> \<not> isTooling D (mode s) \<longrightarrow>
      overwrite D s nc cb = ([Invoke cb ACCESS None], s)) \<and>
   (\<not> shutdownSignaled s \<and> isTooling D (mode s) \<longrightarrow>
      overwrite D s None cb = ([Invoke cb INVALID_PARAM None], s)) \<and>
   (shutdownSignaled s \<or> \<not> isProposer D (mode s) \<longrightarrow>
      \<not> list_ex reaches_store (fst (update D s updates cb)) \<and>
      \<not> list_ex reaches_store (fst (update_single D s u cb))) \<and>
   (shutdownSignaled s \<or> \<not> isTooling D (mode s) \<or> nc = None \<longrightarrow>
      \<not> list_ex reaches_store (fst (overwrite D s nc cb)))"
  by (auto simp: update_def update_single_def overwrite_def split: option.splits)

theorem update_overwrite_gating_witness:
  "shutdownSignaled ((example_state 33 None None None)\<lparr>shutdown_signaled := True\<rparr>) \<and>
   update example_deps ((example_state 33 None None None)\<lparr>shutdown_signaled := True\<rparr>)
       [1] (CallerCb 0) =
     ([Invoke (CallerCb 0) SHUTDOWN None],
      (example_state 33 None None None)\<lparr>shutdown_signaled := True\<rparr>) \<and>
   overwrite example_deps ((example_state 33 None None None)\<lparr>shutdown_signaled := True\<rparr>)
       (Some (example_nc 42)) (CallerCb 0) =
     ([Invoke (CallerCb 0) SHUTDOWN None],
      (example_state 33 None None None)\<lparr>shutdown_signaled := True\<rparr>) \<and>
   \<not> shutdownSignaled (example_state 16 None None None) \<and>
   \<not> isProposer example_deps (mode (example_state 16 None None None)) \<and>
   \<not> isTooling example_deps (mode (example_state 16 None None None)) \<and>
   update example_deps (example_state 16 None None None) [1] (CallerCb 0) =
     ([Invoke (CallerCb 0) ACCESS None], example_state 16 None None None) \<and>
   overwrite example_deps (example_state 16 None None None) (Some (example_nc 42)) (CallerCb 0) =
     ([Invoke (CallerCb 0) ACCESS None], example_state 16 None None None) \<and>
   isTooling example_deps (mode (example_state 33 None None None)) \<and>
   overwrite example_deps (example_state 33 None None None) None (CallerCb 0) =
     ([Invoke (CallerCb 0) INVALID_PARAM None], example_state 33 None None None) \<and>
   update example_deps (example_state 33 None None None) [1] (CallerCb 0) =
     ([StatIncr updates_requested, PostUpdateRequest [1] (UpdateTraceCb (CallerCb 0) [1])],
      example_state 33 None None None)"
  using
    update_overwrite_gating [of "(example_state 33 None None None)\<lparr>shutdown_signaled := True\<rparr>"
      example_deps "[1]" "CallerCb 0" 1 "Some (example_nc 42)"]
    update_overwrite_gating [of "example_state 16 None None None"
      example_deps "[1]" "CallerCb 0" 1 "Some (example_nc 42)"]
    update_overwrite_gating [of "example_state 33 None None None"
      example_deps "[1]" "CallerCb 0" 1 None]
  by (simp add: shutdownSignaled_def example_state_def initial_ncm_def isProposer_def
      isTooling_def hasFlags_def example_deps_def update_def)

section \<open>At most one pending configuration\<close>

text \<open>
  C5. \<open>maybeProcessStagedConfig\<close> returns with nothing done and the manager unchanged when
  nothing is staged or a configuration is pending. When a configuration is staged and none
  is pending, it moves the staged one to pending, leaves staged empty and starts the
  fan-out (or stops at the check that the staged version has not been processed already).
  So whenever the call changes the manager, pending was empty before it.
\<close>

theorem maybeProcessStagedConfig_one_pending:
  fixes s :: "('f, 'p, 't) ncm"
  defines "r \<equiv> (maybeProcessStagedConfig s :: failure + ('p, 'u) effect list \<times> ('f, 'p, 't) ncm)"
  shows
  "(staged_nodes_config s = None \<or> pending_nodes_config s \<noteq> None \<longrightarrow> r = Inr ([], s)) \<and>
   (\<forall>c. staged_nodes_config s = Some c \<and> pending_nodes_config s = None \<longrightarrow>
      r = (if hasProcessedVersion s (getVersion c) then Inl CheckFailed
           else Inr ([StatSet pending_version (getVersion c), UpdateNCMNodesConfiguration c,
                      FulfillOnAllWorkers c],
                     s\<lparr>pending_nodes_config := Some c, staged_nodes_config := None\<rparr>))) \<and>
   (\<forall>es s'. r = Inr (es, s') \<and> s' \<noteq> s \<longrightarrow>
      pending_nodes_config s = None \<and> staged_nodes_config s \<noteq> None \<and>
      pending_nodes_config s' = staged_nodes_config s \<and> staged_nodes_config s' = None \<and>
      local_nodes_config s' = local_nodes_config s)"
  by (auto simp: r_def maybeProcessStagedConfig_def split: option.splits if_splits)

theorem maybeProcessStagedConfig_one_pending_witness:
  "(maybeProcessStagedConfig (example_state 16 (Some (example_nc 7)) (Some (example_nc 8))
        (Some (example_nc 9))) :: failure + example_effect list \<times> example_ncm) =
     Inr ([], example_state 16 (Some (example_nc 7)) (Some (example_nc 8)) (Some (example_nc 9))) \<and>
   (maybeProcessStagedConfig (example_state 16 (Some (example_nc 7)) None None)
       :: failure + example_effect list \<times> example_ncm) =
     Inr ([], example_state 16 (Some (example_nc 7)) None None) \<and>
   (maybeProcessStagedConfig (example_state 16 (Some (example_nc 7)) None (Some (example_nc 9)))
       :: failure + example_effect list \<times> example_ncm) =
     Inr ([StatSet pending_version 9, UpdateNCMNodesConfiguration (example_nc 9),
           FulfillOnAllWorkers (example_nc 9)],
          example_state 16 (Some (example_nc 7)) (Some (example_nc 9)) None)"
  using
    maybeProcessStagedConfig_one_pending [where 'u = nat and s =
      "example_state 16 (Some (example_nc 7)) (Some (example_nc 8)) (Some (example_nc 9))"]
    maybeProcessStagedConfig_one_pending [where 'u = nat and s =
      "example_state 16 (Some (example_nc 7)) None None"]
    maybeProcessStagedConfig_one_pending [where 'u = nat and s =
      "example_state 16 (Some (example_nc 7)) None (Some (example_nc 9))"]
  by (simp add: example_state_def initial_ncm_def hasProcessedVersion_def getVersion_def
      example_nc_def)

section \<open>Completion of the store write\<close>




section \<open>Advancing intermediary shard states\<close>

text \<open>
  C8, as stated, fails where the manager is gone or shutting down when the internal callback
  runs with a failure: the callback logs and reports nothing.
\<close>

theorem advance_callback_report_counterexample:
  "(advance_callback (None :: example_ncm option) AGAIN None :: example_effect list) =
     [RatelimitError AGAIN] \<and>
   (advance_callback (Some ((example_state 33 None None None)\<lparr>shutdown_signaled := True\<rparr>))
      AGAIN None :: example_effect list) = [RatelimitError AGAIN] \<and>
   ReportEvent ADVANCE_INTERMEDIARY_SHARD_STATES_FAILED \<notin>
     set (advance_callback (None :: example_ncm option) AGAIN None :: example_effect list)"
  by (simp add: advance_callback_def shutdownSignaled_def)

text \<open>
  C8, amended. \<open>advanceIntermediaryShardStates\<close> does nothing and changes nothing when the
  mode lacks the Proposer flag or shutdown has been signaled; otherwise it asks the tracker
  and, if there is an update, requests it with the internal callback. That callback does
  nothing on OK and VERSION_MISMATCH; on every other status it logs (rate-limited) and,
  unless the manager is gone or shutdown has been signaled, reports
  ADVANCE_INTERMEDIARY_SHARD_STATES_FAILED; it never invokes another callback.
\<close>

theorem advanceIntermediaryShardStates_gated:
  fixes D :: "('a::len word, 'p, 'u, 't) deps" and s :: "('a word, 'p, 't) ncm"
    and ncm :: "('a word, 'p, 't) ncm option" and now status nc
  defines "cb_effects \<equiv> (advance_callback ncm status nc :: ('p, 'u) effect list)"
  shows
  "(\<not> isProposer D (mode s) \<or> shutdownSignaled s \<longrightarrow>
      advanceIntermediaryShardStates D now s = ([], s)) \<and>
   (isProposer D (mode s) \<and> \<not> shutdownSignaled s \<longrightarrow>
      advanceIntermediaryShardStates D now s =
        (case extractNCUpdate D (tracker s) (now - intermediary_shard_state_timeout D) of
           (None, tr) \<Rightarrow> ([], s\<lparr>tracker := tr\<rparr>)
         | (Some u, tr) \<Rightarrow>
             ([StatIncr updates_requested,
               PostUpdateRequest [u] (UpdateTraceCb AdvanceCb [u])], s\<lparr>tracker := tr\<rparr>))) \<and>
   (status = OK \<or> status = VERSION_MISMATCH \<longrightarrow> cb_effects = []) \<and>
   (status \<noteq> OK \<and> status \<noteq> VERSION_MISMATCH \<longrightarrow>
      cb_effects =
        RatelimitError status #
          (case ncm of
             None \<Rightarrow> []
           | Some s' \<Rightarrow> if shutdownSignaled s' then []
                       else [ReportEvent ADVANCE_INTERMEDIARY_SHARD_STATES_FAILED])) \<and>
   (\<forall>cb st c. Invoke cb st c \<notin> set cb_effects)"
  by (auto simp: cb_effects_def advanceIntermediaryShardStates_def advance_callback_def
      update_single_def update_def shutdownSignaled_def split: option.splits prod.splits)

theorem advanceIntermediaryShardStates_gated_witness:
  "\<not> isProposer example_deps (mode (example_state 64 None None None)) \<and>
   advanceIntermediaryShardStates example_deps 100 (example_state 64 None None None) =
     ([], example_state 64 None None None) \<and>
   isProposer example_deps (mode (example_state 65 None None None)) \<and>
   advanceIntermediaryShardStates example_deps 100 (example_state 65 None None None) =
     ([StatIncr updates_requested, PostUpdateRequest [1] (UpdateTraceCb AdvanceCb [1])],
      example_state 65 None None None) \<and>
   advanceIntermediaryShardStates example_deps 100
       ((example_state 65 None None None)\<lparr>shutdown_signaled := True\<rparr>) =
     ([], (example_state 65 None None None)\<lparr>shutdown_signaled := True\<rparr>) \<and>
   (advance_callback (Some (example_state 65 None None None)) OK (Some (example_nc 8))
      :: example_effect list) = [] \<and>
   (advance_callback (Some (example_state 65 None None None)) AGAIN None
      :: example_effect list) =
     [RatelimitError AGAIN, ReportEvent ADVANCE_INTERMEDIARY_SHARD_STATES_FAILED]"
  using
    advanceIntermediaryShardStates_gated [where D = example_deps and now = 100 and
      s = "example_state 64 None None None" and status = OK and nc = "Some (example_nc 8)"
      and ncm = "Some (example_state 65 None None None)"]
    advanceIntermediaryShardStates_gated [where D = example_deps and now = 100 and
      s = "example_state 65 None None None" and status = AGAIN and nc = None
      and ncm = "Some (example_state 65 None None None)"]
    advanceIntermediaryShardStates_gated [where D = example_deps and now = 100 and
      s = "(example_state 65 None None None)\<lparr>shutdown_signaled := True\<rparr>" and
      status = AGAIN and nc = None and ncm = "Some (example_state 65 None None None)"]
  by (simp add: example_deps_def example_state_def initial_ncm_def isProposer_def hasFlags_def
      shutdownSignaled_def)

section \<open>Proposing an update\<close>

lemma max_nc_cases: "max_nc a b = a \<or> max_nc a b = b"
  by (cases a; cases b) auto

lemma max_nc_None: "max_nc a b = None \<longleftrightarrow> a = None \<and> b = None"
  by (cases a; cases b) auto

lemma max_nc_ge:
  "max_nc a b = Some m \<Longrightarrow>
     (\<forall>x. a = Some x \<longrightarrow> getVersion x \<le> getVersion m) \<and>
     (\<forall>y. b = Some y \<longrightarrow> getVersion y \<le> getVersion m)"
  by (cases a; cases b) (auto split: if_splits)

lemma getLatestKnownConfig_max:
  fixes D :: "('f, 'p, 'u, 't) deps" and s :: "('f, 'p, 't) ncm"
  defines "base \<equiv> getLatestKnownConfig D s"
  shows
    "(local_nodes_config s = None \<and> pending_nodes_config s = None \<and> staged_nodes_config s = None
        \<longrightarrow> base = NodesConfiguration_default D \<and> getVersion base = 0) \<and>
     (\<not> (local_nodes_config s = None \<and> pending_nodes_config s = None \<and>
          staged_nodes_config s = None)
        \<longrightarrow> Some base \<in> {local_nodes_config s, pending_nodes_config s, staged_nodes_config s}) \<and>
     (\<forall>c. Some c \<in> {local_nodes_config s, pending_nodes_config s, staged_nodes_config s}
        \<longrightarrow> getVersion c \<le> getVersion base)"
proof -
  let ?c1 = "max_nc (local_nodes_config s) (pending_nodes_config s)"
  let ?c2 = "max_nc ?c1 (staged_nodes_config s)"
  have b: "base = (case ?c2 of None \<Rightarrow> NodesConfiguration_default D | Some c \<Rightarrow> c)"
    by (simp add: base_def getLatestKnownConfig_def getConfig_def Let_def)
  show ?thesis
  proof (cases ?c2)
    case None
    then have "local_nodes_config s = None" "pending_nodes_config s = None"
      "staged_nodes_config s = None"
      by (simp_all add: max_nc_None)
    then show ?thesis
      using b None
      by (simp add: NodesConfiguration_default_def getVersion_def EMPTY_VERSION_def)
  next
    case (Some m)
    then have bm: "base = m" using b by simp
    have ne: "\<not> (local_nodes_config s = None \<and> pending_nodes_config s = None \<and>
          staged_nodes_config s = None)"
      using Some by (auto simp: max_nc_None)
    have mem: "Some m \<in> {local_nodes_config s, pending_nodes_config s, staged_nodes_config s}"
      using Some max_nc_cases [of ?c1 "staged_nodes_config s"]
        max_nc_cases [of "local_nodes_config s" "pending_nodes_config s"]
      by auto
    have ge2: "\<forall>y. staged_nodes_config s = Some y \<longrightarrow> getVersion y \<le> getVersion m"
      and ge1: "\<forall>x. ?c1 = Some x \<longrightarrow> getVersion x \<le> getVersion m"
      using max_nc_ge [OF Some] by auto
    have ge: "getVersion c \<le> getVersion m"
      if "Some c \<in> {local_nodes_config s, pending_nodes_config s, staged_nodes_config s}" for c
    proof (cases "Some c = staged_nodes_config s")
      case True
      then show ?thesis using ge2 by simp
    next
      case False
      then have lp: "local_nodes_config s = Some c \<or> pending_nodes_config s = Some c"
        using that by auto
      then obtain x where x: "?c1 = Some x"
        by (cases ?c1) (auto simp: max_nc_None)
      from max_nc_ge [OF x] lp have "getVersion c \<le> getVersion x" by auto
      also have "\<dots> \<le> getVersion m" using ge1 x by simp
      finally show ?thesis .
    qed
    show ?thesis using bm ne mem ge by auto
  qed
qed

lemma apply_updates_append:
  "apply_updates D nc (xs @ ys) e =
     (case apply_updates D nc xs e of
        (None, e') \<Rightarrow> (None, e')
      | (Some nc', e') \<Rightarrow> apply_updates D nc' ys e')"
  by (induction xs arbitrary: nc e) (auto split: prod.splits option.splits)

lemma foldl_failed:
  "foldl (\<lambda>acc u. case acc of (None, e') \<Rightarrow> (None, e')
                   | (Some nc, e') \<Rightarrow> applyUpdate D nc u e') (None, e) us = (None, e)"
  by (induction us) auto

lemma apply_updates_spec: "apply_updates D nc us e = spec_apply_batch D nc us e"
  unfolding spec_apply_batch_def
proof (induction us arbitrary: nc e)
  case Nil
  show ?case by simp
next
  case (Cons u us)
  show ?case
  proof (cases "applyUpdate D nc u e")
    case (Pair r e')
    then show ?thesis
      using Cons.IH by (cases r) (simp_all add: foldl_failed)
  qed
qed

text \<open>
  \<open>update\<close> posts an update request only for a manager whose mode has the Proposer flag,
  and \<open>upgradeToProposer\<close>, the one operation that writes the mode, keeps the flag: the
  re-check at the head of \<open>onUpdateRequest\<close>, which answers (ACCESS, null), passes for
  every request \<open>update\<close> posted.
\<close>

lemma update_posts_only_for_proposer:
  "PostUpdateRequest us cb' \<in> set (fst (update D s updates cb)) \<Longrightarrow> isProposer D (mode s)"
  by (auto simp: update_def split: if_splits)

lemma onUpdateRequest_not_proposer:
  "\<not> isProposer D (mode s) \<Longrightarrow>
     onUpdateRequest D s updates callback = ([Invoke callback ACCESS None], s)"
  by (simp add: onUpdateRequest_def)

lemma ncm_upgradeToProposer_keeps_proposer:
  "isProposer D (mode s) \<Longrightarrow> isProposer D (mode (ncm_upgradeToProposer D s))"
  by (simp add: ncm_upgradeToProposer_def isProposer_def upgradeToProposer_def
      hasFlags_setFlags_mono)

text \<open>
  C1. For an update request handled by \<open>onUpdateRequest\<close> (the mode having the Proposer
  flag): the base is the configuration of the highest version among local, pending and
  staged, and the empty configuration of version 0 when all three are absent; the updates
  are applied to it from the left; at the first one that fails the callback is invoked with
  (err, null) and nothing else happens, so the store is not written; when all apply, the
  result is given the version base_version + 1 (in 64-bit arithmetic) however many updates
  there were, then serialized, and the blob is written to the store with base_version as
  the expected version (the callback is invoked with (err, null) instead when
  serialization yields the empty string).
\<close>

theorem onUpdateRequest_base_plus_one:
  fixes D :: "('a::len word, 'p, 'u, 't) deps" and s :: "('a word, 'p, 't) ncm"
    and updates callback
  defines "base \<equiv> getLatestKnownConfig D s"
  defines "base_version \<equiv> getVersion (getLatestKnownConfig D s)"
  assumes proposer: "isProposer D (mode s)"
  shows
  "(local_nodes_config s = None \<and> pending_nodes_config s = None \<and> staged_nodes_config s = None
      \<longrightarrow> base = NodesConfiguration_default D \<and> base_version = 0) \<and>
   (\<not> (local_nodes_config s = None \<and> pending_nodes_config s = None \<and>
        staged_nodes_config s = None)
      \<longrightarrow> Some base \<in> {local_nodes_config s, pending_nodes_config s, staged_nodes_config s}) \<and>
   (\<forall>c. Some c \<in> {local_nodes_config s, pending_nodes_config s, staged_nodes_config s}
      \<longrightarrow> getVersion c \<le> base_version) \<and>
   apply_updates D base updates (err s) = spec_apply_batch D base updates (err s) \<and>
   (\<forall>pre u post nc1 e1 e2.
      updates = pre @ u # post \<and> apply_updates D base pre (err s) = (Some nc1, e1) \<and>
      applyUpdate D nc1 u e1 = (None, e2) \<longrightarrow>
      onUpdateRequest D s updates callback = ([Invoke callback e2 None], s\<lparr>err := e2\<rparr>)) \<and>
   (\<forall>nc e.
      apply_updates D base updates (err s) = (Some nc, e) \<longrightarrow>
      getVersion (withVersion nc (base_version + 1)) = base_version + 1 \<and>
      onUpdateRequest D s updates callback =
        (case serialize D (withVersion nc (base_version + 1)) e of
           (blob, e') \<Rightarrow>
             if blob = [] then ([Invoke callback e' None], s\<lparr>err := e'\<rparr>)
             else ([StoreUpdateConfig blob base_version callback
                      (withVersion nc (base_version + 1))], s\<lparr>err := e'\<rparr>)))"
proof -
  note m = getLatestKnownConfig_max [of s D]
  have a1: "local_nodes_config s = None \<and> pending_nodes_config s = None \<and>
      staged_nodes_config s = None
      \<longrightarrow> base = NodesConfiguration_default D \<and> base_version = 0"
    using m unfolding base_def base_version_def by blast
  have a2: "\<not> (local_nodes_config s = None \<and> pending_nodes_config s = None \<and>
        staged_nodes_config s = None)
      \<longrightarrow> Some base \<in> {local_nodes_config s, pending_nodes_config s, staged_nodes_config s}"
    using m unfolding base_def by blast
  have a3: "\<forall>c. Some c \<in> {local_nodes_config s, pending_nodes_config s, staged_nodes_config s}
      \<longrightarrow> getVersion c \<le> base_version"
    using m unfolding base_version_def by blast
  have a4: "apply_updates D base updates (err s) = spec_apply_batch D base updates (err s)"
    by (rule apply_updates_spec)
  have a5: "\<forall>pre u post nc1 e1 e2.
      updates = pre @ u # post \<and> apply_updates D base pre (err s) = (Some nc1, e1) \<and>
      applyUpdate D nc1 u e1 = (None, e2) \<longrightarrow>
      onUpdateRequest D s updates callback = ([Invoke callback e2 None], s\<lparr>err := e2\<rparr>)"
  proof (intro allI impI)
    fix pre u post nc1 e1 e2
    assume h: "updates = pre @ u # post \<and> apply_updates D base pre (err s) = (Some nc1, e1) \<and>
      applyUpdate D nc1 u e1 = (None, e2)"
    then have "apply_updates D base updates (err s) = (None, e2)"
      by (simp add: apply_updates_append)
    then show "onUpdateRequest D s updates callback = ([Invoke callback e2 None], s\<lparr>err := e2\<rparr>)"
      using proposer by (simp add: onUpdateRequest_def base_def Let_def)
  qed
  have a6: "\<forall>nc e.
      apply_updates D base updates (err s) = (Some nc, e) \<longrightarrow>
      getVersion (withVersion nc (base_version + 1)) = base_version + 1 \<and>
      onUpdateRequest D s updates callback =
        (case serialize D (withVersion nc (base_version + 1)) e of
           (blob, e') \<Rightarrow>
             if blob = [] then ([Invoke callback e' None], s\<lparr>err := e'\<rparr>)
             else ([StoreUpdateConfig blob base_version callback
                      (withVersion nc (base_version + 1))], s\<lparr>err := e'\<rparr>))"
    using proposer
    by (simp add: onUpdateRequest_def base_def base_version_def Let_def getVersion_def
        withVersion_def split: prod.splits)
  show ?thesis
    by (intro conjI) (rule a1 a2 a3 a4 a5 a6)+
qed

theorem onUpdateRequest_base_plus_one_witness:
  "isProposer example_deps (mode (example_state 65 (Some (example_nc 7)) None None)) \<and>
   getLatestKnownConfig example_deps
       (example_state 65 (Some (example_nc 6)) (Some (example_nc 7)) (Some (example_nc 9))) =
     example_nc 9 \<and>
   getLatestKnownConfig example_deps (example_state 65 None None None) =
     \<lparr>version = 0, payload = 0\<rparr> \<and>
   onUpdateRequest example_deps (example_state 65 (Some (example_nc 7)) None None)
       [1, 2] (CallerCb 0) =
     ([StoreUpdateConfig ''nc'' 7 (CallerCb 0) \<lparr>version = 8, payload = 10\<rparr>],
      example_state 65 (Some (example_nc 7)) None None) \<and>
   onUpdateRequest example_deps (example_state 65 (Some (example_nc 7)) None None)
       [1, 0, 2] (CallerCb 0) =
     ([Invoke (CallerCb 0) INVALID_PARAM None],
      (example_state 65 (Some (example_nc 7)) None None)\<lparr>err := INVALID_PARAM\<rparr>) \<and>
   onUpdateRequest example_deps (example_state 65 None None None) [3] (CallerCb 0) =
     ([StoreUpdateConfig ''nc'' 0 (CallerCb 0) \<lparr>version = 1, payload = 3\<rparr>],
      example_state 65 None None None)"
proof -
  let ?s = "example_state 65 (Some (example_nc 7)) None None"
  have p: "isProposer example_deps (mode ?s)"
    by (simp add: isProposer_def hasFlags_def example_state_def initial_ncm_def
        example_deps_def)
  have p0: "isProposer example_deps (mode (example_state 65 None None None))"
    by (simp add: isProposer_def hasFlags_def example_state_def initial_ncm_def
        example_deps_def)
  have b: "getLatestKnownConfig example_deps ?s = example_nc 7"
    by (simp add: getLatestKnownConfig_def getConfig_def example_state_def initial_ncm_def)
  have b9: "getLatestKnownConfig example_deps
       (example_state 65 (Some (example_nc 6)) (Some (example_nc 7)) (Some (example_nc 9))) =
     example_nc 9"
    by (simp add: getLatestKnownConfig_def getConfig_def example_state_def initial_ncm_def
        getVersion_def example_nc_def)
  have b0: "getLatestKnownConfig example_deps (example_state 65 None None None) =
     \<lparr>version = 0, payload = 0\<rparr>"
    by (simp add: getLatestKnownConfig_def getConfig_def example_state_def initial_ncm_def
        NodesConfiguration_default_def EMPTY_VERSION_def example_deps_def)
  have e: "err ?s = OK" "err (example_state 65 None None None) = OK"
    by (simp_all add: example_state_def initial_ncm_def)
  have ap: "apply_updates example_deps (example_nc 7) [1, 2] OK =
      (Some \<lparr>version = 9, payload = 10\<rparr>, OK)"
    by (simp add: example_deps_def example_nc_def)
  have ap1: "apply_updates example_deps (example_nc 7) [1] OK =
      (Some \<lparr>version = 8, payload = 8\<rparr>, OK)"
    by (simp add: example_deps_def example_nc_def)
  have ap0: "applyUpdate example_deps \<lparr>version = 8, payload = 8\<rparr> 0 OK = (None, INVALID_PARAM)"
    by (simp add: example_deps_def)
  have ap3: "apply_updates example_deps \<lparr>version = 0, payload = 0\<rparr> [3] OK =
      (Some \<lparr>version = 1, payload = 3\<rparr>, OK)"
    by (simp add: example_deps_def)
  have sz: "serialize example_deps \<lparr>version = 8, payload = 10\<rparr> OK = (''nc'', OK)"
      "serialize example_deps \<lparr>version = 1, payload = 3\<rparr> OK = (''nc'', OK)"
    by (simp_all add: example_deps_def)
  note c5 = conjunct2 [THEN conjunct2, THEN conjunct2, THEN conjunct2]
  note c6 = c5 [THEN conjunct2]
  note t = onUpdateRequest_base_plus_one [OF p, of "[1, 2]" "CallerCb 0", THEN c6,
      rule_format, unfolded b e, OF ap]
  note tf = onUpdateRequest_base_plus_one [OF p, of "[1, 0, 2]" "CallerCb 0", THEN c5 [THEN conjunct1],
      rule_format, unfolded b e, of "[1]" 0 "[2]"]
  note t0 = onUpdateRequest_base_plus_one [OF p0, of "[3]" "CallerCb 0", THEN c6,
      rule_format, unfolded b0 e, OF ap3]
  have r1: "onUpdateRequest example_deps ?s [1, 2] (CallerCb 0) =
     ([StoreUpdateConfig ''nc'' 7 (CallerCb 0) \<lparr>version = 8, payload = 10\<rparr>], ?s)"
    using t [THEN conjunct2]
    by (simp add: getVersion_def withVersion_def example_nc_def sz)
      (simp add: example_state_def initial_ncm_def)
  have r2: "onUpdateRequest example_deps ?s [1, 0, 2] (CallerCb 0) =
     ([Invoke (CallerCb 0) INVALID_PARAM None], ?s\<lparr>err := INVALID_PARAM\<rparr>)"
    using tf ap1 ap0 by simp
  have r3: "onUpdateRequest example_deps (example_state 65 None None None) [3] (CallerCb 0) =
     ([StoreUpdateConfig ''nc'' 0 (CallerCb 0) \<lparr>version = 1, payload = 3\<rparr>],
      example_state 65 None None None)"
    using t0 [THEN conjunct2]
    by (simp add: getVersion_def withVersion_def sz)
      (simp add: example_state_def initial_ncm_def)
  show ?thesis using p b9 b0 r1 r2 r3 by simp
qed

section \<open>The pipeline keeps its order\<close>

lemma advance_slots:
  "advanceIntermediaryShardStates D now s = (es, s') \<Longrightarrow>
     local_nodes_config s' = local_nodes_config s \<and>
     pending_nodes_config s' = pending_nodes_config s \<and>
     staged_nodes_config s' = staged_nodes_config s \<and>
     shutdown_signaled s' = shutdown_signaled s \<and> mode s' = mode s"
  by (auto simp: advanceIntermediaryShardStates_def update_single_def update_def Let_def
      split: if_splits prod.splits option.splits)

lemma maybeProcessStagedConfig_ordered:
  fixes s :: "('f, 'p, 't) ncm"
  assumes "pipeline_ordered s"
    and "(maybeProcessStagedConfig s :: failure + ('p, 'u) effect list \<times> ('f, 'p, 't) ncm) =
           Inr (es, s')"
  shows "pipeline_ordered s'"
  using assms
  by (auto simp: maybeProcessStagedConfig_def pipeline_ordered_def version_lt_def
      split: option.splits if_splits)

lemma maybeProcessStagedConfig_total:
  fixes s :: "('f, 'p, 't) ncm"
  assumes "version_lt (local_nodes_config s) (staged_nodes_config s)"
  shows "\<exists>es s'. (maybeProcessStagedConfig s ::
            failure + ('p, 'u) effect list \<times> ('f, 'p, 't) ncm) = Inr (es, s')"
  using assms
  by (auto simp: maybeProcessStagedConfig_def version_lt_def hasProcessedVersion_def
      split: option.splits)

lemma onProcessingFinished_ordered:
  fixes s :: "('f, 'p, 't) ncm"
  assumes "pipeline_ordered s"
    and "(onProcessingFinished s nc :: failure + ('p, 'u) effect list \<times> ('f, 'p, 't) ncm) =
           Inr (es, s')"
  shows "pipeline_ordered s'"
proof -
  from assms(2) obtain c p es2 where
    nc: "nc = Some c" and p: "pending_nodes_config s = Some p"
    and mp: "(maybeProcessStagedConfig
               (s\<lparr>local_nodes_config := Some p, pending_nodes_config := None\<rparr>)
             :: failure + ('p, 'u) effect list \<times> ('f, 'p, 't) ncm) = Inr (es2, s')"
    by (auto simp: onProcessingFinished_def Let_def split: option.splits if_splits sum.splits)
  have "pipeline_ordered (s\<lparr>local_nodes_config := Some p, pending_nodes_config := None\<rparr>)"
    using assms(1) p by (auto simp: pipeline_ordered_def version_lt_def split: option.splits)
  then show ?thesis using mp by (rule maybeProcessStagedConfig_ordered)
qed

lemma onProcessingFinished_total:
  fixes s :: "('f, 'p, 't) ncm"
  assumes "pipeline_ordered s" and "pending_nodes_config s = Some p"
    and "getVersion c = getVersion p"
  shows "\<exists>es s'. (onProcessingFinished s (Some c) ::
            failure + ('p, 'u) effect list \<times> ('f, 'p, 't) ncm) = Inr (es, s')"
proof -
  let ?s1 = "s\<lparr>local_nodes_config := Some p, pending_nodes_config := None\<rparr>"
  have np: "\<not> hasProcessedVersion s (getVersion p)"
    using assms(1,2)
    by (auto simp: pipeline_ordered_def version_lt_def hasProcessedVersion_def
        split: option.splits)
  have "version_lt (local_nodes_config ?s1) (staged_nodes_config ?s1)"
    using assms(1,2) by (auto simp: pipeline_ordered_def version_lt_def split: option.splits)
  from maybeProcessStagedConfig_total [OF this, where 'u = 'u]
  obtain es s' where "(maybeProcessStagedConfig ?s1 ::
       failure + ('p, 'u) effect list \<times> ('f, 'p, 't) ncm) = Inr (es, s')"
    by blast
  then show ?thesis
    using assms(2,3) np by (simp add: onProcessingFinished_def Let_def)
qed

lemma onNewConfig_ordered:
  fixes D :: "('a::len word, 'p, 'u, 't) deps"
  assumes "pipeline_ordered s" and "onNewConfig D now s nc = Inr (es, s')"
  shows "pipeline_ordered s'"
proof (cases "\<exists>c. nc = Some c \<and> \<not> shutdownSignaled s \<and> shouldStageVersion s (getVersion c)")
  case False
  then have "s' = s"
    using assms(2) by (auto simp: onNewConfig_def Let_def split: option.splits if_splits)
  then show ?thesis using assms(1) by simp
next
  case True
  then obtain c where c: "nc = Some c" "\<not> shutdownSignaled s"
    "shouldStageVersion s (getVersion c)" by blast
  let ?s2 = "s\<lparr>staged_nodes_config := Some c,
               tracker := tracker_onNewConfig D (tracker s) c\<rparr>"
  obtain ea s3 where adv: "advanceIntermediaryShardStates D now ?s2 = (ea, s3)"
    by (cases "advanceIntermediaryShardStates D now ?s2")
  note sl = advance_slots [OF adv]
  have o2: "pipeline_ordered ?s2"
    using assms(1) c(3)
    by (auto simp: pipeline_ordered_def version_lt_def shouldStageVersion_def
        isProcessingEqualOrHigherVersion_def hasProcessedVersion_def split: option.splits)
  have o3: "pipeline_ordered s3"
    using o2 sl by (simp add: pipeline_ordered_def)
  from assms(2) c adv sl obtain es2 where
    "(maybeProcessStagedConfig s3 :: failure + ('p, 'u) effect list \<times> ('a word, 'p, 't) ncm) =
       Inr (es2, s')"
    by (auto simp: onNewConfig_def Let_def split: sum.splits)
  with o3 show ?thesis by (rule maybeProcessStagedConfig_ordered)
qed

lemma onNewConfig_total:
  fixes D :: "('a::len word, 'p, 'u, 't) deps"
  shows "\<exists>es s'. onNewConfig D now s (Some c) = Inr (es, s')"
proof (cases "\<not> shutdownSignaled s \<and> shouldStageVersion s (getVersion c)")
  case False
  then show ?thesis by (auto simp: onNewConfig_def Let_def)
next
  case True
  let ?s2 = "s\<lparr>staged_nodes_config := Some c,
               tracker := tracker_onNewConfig D (tracker s) c\<rparr>"
  obtain ea s3 where adv: "advanceIntermediaryShardStates D now ?s2 = (ea, s3)"
    by (cases "advanceIntermediaryShardStates D now ?s2")
  note sl = advance_slots [OF adv]
  have "version_lt (local_nodes_config s3) (staged_nodes_config s3)"
    using True sl
    by (auto simp: version_lt_def shouldStageVersion_def hasProcessedVersion_def
        split: option.splits)
  from maybeProcessStagedConfig_total [OF this, where 'u = 'u]
  obtain es s' where "(maybeProcessStagedConfig s3 ::
      failure + ('p, 'u) effect list \<times> ('a word, 'p, 't) ncm) = Inr (es, s')"
    by blast
  then show ?thesis
    using True adv sl by (simp add: onNewConfig_def Let_def)
qed

lemma step_ordered:
  assumes "pipeline_ordered s" and "step D s ev = Inr (es, s')"
  shows "pipeline_ordered s'"
proof (cases ev)
  case (NewConfig now nc)
  then show ?thesis using assms onNewConfig_ordered by fastforce
next
  case (ProcessingFinished nc)
  then show ?thesis using assms onProcessingFinished_ordered by fastforce
next
  case ProcessStaged
  then show ?thesis using assms maybeProcessStagedConfig_ordered by fastforce
next
  case UpgradeToProposer
  then show ?thesis
    using assms by (auto simp: ncm_upgradeToProposer_def pipeline_ordered_def)
next
  case Shutdown
  then show ?thesis using assms by (auto simp: shutdown_def pipeline_ordered_def)
qed

lemma run_ordered:
  "pipeline_ordered s \<Longrightarrow> run D s evs = Inr (es, s') \<Longrightarrow> pipeline_ordered s'"
proof (induction evs arbitrary: s es)
  case Nil
  then show ?case by simp
next
  case (Cons ev evs)
  from Cons.prems(2) obtain es1 s1 es2 where
    st: "step D s ev = Inr (es1, s1)" and rn: "run D s1 evs = Inr (es2, s')"
    by (auto split: sum.splits)
  from step_ordered [OF Cons.prems(1) st] have "pipeline_ordered s1" .
  then show ?case using rn by (rule Cons.IH)
qed

lemma initial_ordered: "pipeline_ordered (initial_ncm m tr)"
  by (simp add: pipeline_ordered_def initial_ncm_def version_lt_def)

text \<open>
  C4. The order local.version < pending.version < staged.version, for the slots that hold a
  configuration, holds in the manager as constructed and is kept by \<open>onNewConfig\<close>, by
  \<open>maybeProcessStagedConfig\<close> and by \<open>onProcessingFinished\<close>, hence by every run of
  transitions; and under it none of the three stops at a failed check (for
  \<open>onProcessingFinished\<close>: when it is called with the version that is pending).
\<close>

theorem pipeline_ordered_preserved:
  fixes D :: "('a::len word, 'p, 'u, 't) deps" and s :: "('a word, 'p, 't) ncm"
    and m tr now nc evs
  defines "mp \<equiv> (maybeProcessStagedConfig s ::
                   failure + ('p, 'u) effect list \<times> ('a word, 'p, 't) ncm)"
  defines "pf \<equiv> (\<lambda>c. (onProcessingFinished s c ::
                   failure + ('p, 'u) effect list \<times> ('a word, 'p, 't) ncm))"
  shows
  "pipeline_ordered (initial_ncm m tr :: ('a word, 'p, 't) ncm) \<and>
   (pipeline_ordered s \<longrightarrow>
      (\<forall>es s'. onNewConfig D now s nc = Inr (es, s') \<longrightarrow> pipeline_ordered s') \<and>
      (\<forall>es s'. mp = Inr (es, s') \<longrightarrow> pipeline_ordered s') \<and>
      (\<forall>es s'. pf nc = Inr (es, s') \<longrightarrow> pipeline_ordered s') \<and>
      (\<forall>es s'. run D s evs = Inr (es, s') \<longrightarrow> pipeline_ordered s') \<and>
      (\<forall>c. \<exists>es s'. onNewConfig D now s (Some c) = Inr (es, s')) \<and>
      (\<exists>es s'. mp = Inr (es, s')) \<and>
      (\<forall>c p. pending_nodes_config s = Some p \<and> getVersion c = getVersion p \<longrightarrow>
         (\<exists>es s'. pf (Some c) = Inr (es, s'))))"
proof -
  have rest: "(\<forall>es s'. onNewConfig D now s nc = Inr (es, s') \<longrightarrow> pipeline_ordered s') \<and>
      (\<forall>es s'. mp = Inr (es, s') \<longrightarrow> pipeline_ordered s') \<and>
      (\<forall>es s'. pf nc = Inr (es, s') \<longrightarrow> pipeline_ordered s') \<and>
      (\<forall>es s'. run D s evs = Inr (es, s') \<longrightarrow> pipeline_ordered s') \<and>
      (\<forall>c. \<exists>es s'. onNewConfig D now s (Some c) = Inr (es, s')) \<and>
      (\<exists>es s'. mp = Inr (es, s')) \<and>
      (\<forall>c p. pending_nodes_config s = Some p \<and> getVersion c = getVersion p \<longrightarrow>
         (\<exists>es s'. pf (Some c) = Inr (es, s')))" if o: "pipeline_ordered s"
  proof (intro conjI allI impI)
    fix es s' assume "onNewConfig D now s nc = Inr (es, s')"
    with o show "pipeline_ordered s'" by (rule onNewConfig_ordered)
  next
    fix es s' assume "mp = Inr (es, s')"
    with o show "pipeline_ordered s'"
      unfolding mp_def by (rule maybeProcessStagedConfig_ordered)
  next
    fix es s' assume "pf nc = Inr (es, s')"
    with o show "pipeline_ordered s'"
      unfolding pf_def by (rule onProcessingFinished_ordered)
  next
    fix es s' assume "run D s evs = Inr (es, s')"
    with o show "pipeline_ordered s'" by (rule run_ordered)
  next
    fix c show "\<exists>es s'. onNewConfig D now s (Some c) = Inr (es, s')"
      by (rule onNewConfig_total)
  next
    from o have "version_lt (local_nodes_config s) (staged_nodes_config s)"
      by (simp add: pipeline_ordered_def)
    then show "\<exists>es s'. mp = Inr (es, s')"
      unfolding mp_def by (rule maybeProcessStagedConfig_total)
  next
    fix c p :: "'p NodesConfiguration"
    assume "pending_nodes_config s = Some p \<and> getVersion c = getVersion p"
    then show "\<exists>es s'. pf (Some c) = Inr (es, s')"
      unfolding pf_def using o onProcessingFinished_total by blast
  qed
  show ?thesis by (rule conjI [OF initial_ordered impI [OF rest]])
qed

lemmas example_eval =
  example_state_def initial_ncm_def example_nc_def example_deps_def
  onNewConfig_def shutdownSignaled_def shouldStageVersion_def
  isProcessingEqualOrHigherVersion_def hasProcessedVersion_def getVersion_def
  advanceIntermediaryShardStates_def isProposer_def hasFlags_def
  maybeProcessStagedConfig_def onProcessingFinished_def Let_def

lemma example_step1:
  "onNewConfig example_deps 0 (example_state 64 None None None) (Some (example_nc 8)) =
     Inr ([StatSet staged_version 8, StatSet pending_version 8,
           UpdateNCMNodesConfiguration (example_nc 8), FulfillOnAllWorkers (example_nc 8)],
          (example_state 64 None (Some (example_nc 8)) None)\<lparr>tracker := 2\<rparr>)"
  by (simp add: example_eval)

lemma example_step2:
  "onNewConfig example_deps 0
       ((example_state 64 None (Some (example_nc 8)) None)\<lparr>tracker := 2\<rparr>)
       (Some (example_nc 9)) =
     Inr ([StatSet staged_version 9],
          (example_state 64 None (Some (example_nc 8)) (Some (example_nc 9)))\<lparr>tracker := 3\<rparr>)"
  by (simp add: example_eval)

lemma example_step3:
  "onNewConfig example_deps 0
       ((example_state 64 None (Some (example_nc 8)) (Some (example_nc 9)))\<lparr>tracker := 3\<rparr>)
       (Some (example_nc 10)) =
     Inr ([StatSet staged_version 10],
          (example_state 64 None (Some (example_nc 8)) (Some (example_nc 10)))\<lparr>tracker := 4\<rparr>)"
  by (simp add: example_eval)

lemma example_step4:
  "(onProcessingFinished
       ((example_state 64 None (Some (example_nc 8)) (Some (example_nc 10)))\<lparr>tracker := 4\<rparr>)
       (Some (example_nc 8)) :: failure + example_effect list \<times> example_ncm) =
     Inr ([InitializedPost, StatIncr config_published, StatSet published_version 8,
           StatSet pending_version 10,
           UpdateNCMNodesConfiguration (example_nc 10), FulfillOnAllWorkers (example_nc 10)],
          (example_state 64 (Some (example_nc 8)) (Some (example_nc 10)) None)\<lparr>tracker := 4\<rparr>)"
  by (simp add: example_eval)

lemma example_burst_run:
  "run example_deps (example_state 64 None None None)
      [NewConfig 0 (example_nc 8), NewConfig 0 (example_nc 9), NewConfig 0 (example_nc 10),
       ProcessingFinished (example_nc 8)] =
     Inr ([StatSet staged_version 8, StatSet pending_version 8,
           UpdateNCMNodesConfiguration (example_nc 8), FulfillOnAllWorkers (example_nc 8),
           StatSet staged_version 9, StatSet staged_version 10,
           InitializedPost, StatIncr config_published, StatSet published_version 8,
           StatSet pending_version 10,
           UpdateNCMNodesConfiguration (example_nc 10), FulfillOnAllWorkers (example_nc 10)],
          (example_state 64 (Some (example_nc 8)) (Some (example_nc 10)) None)\<lparr>tracker := 4\<rparr>)"
  by (simp add: example_step1 example_step2 example_step3 example_step4)

theorem pipeline_ordered_preserved_witness:
  "pipeline_ordered (example_state 64 None None None) \<and>
   run example_deps (example_state 64 None None None)
      [NewConfig 0 (example_nc 8), NewConfig 0 (example_nc 9), NewConfig 0 (example_nc 10),
       ProcessingFinished (example_nc 8)] =
     Inr ([StatSet staged_version 8, StatSet pending_version 8,
           UpdateNCMNodesConfiguration (example_nc 8), FulfillOnAllWorkers (example_nc 8),
           StatSet staged_version 9, StatSet staged_version 10,
           InitializedPost, StatIncr config_published, StatSet published_version 8,
           StatSet pending_version 10,
           UpdateNCMNodesConfiguration (example_nc 10), FulfillOnAllWorkers (example_nc 10)],
          (example_state 64 (Some (example_nc 8)) (Some (example_nc 10)) None)\<lparr>tracker := 4\<rparr>) \<and>
   pipeline_ordered
     ((example_state 64 (Some (example_nc 8)) (Some (example_nc 10)) None)\<lparr>tracker := 4\<rparr>)"
proof -
  let ?s = "example_state 64 None None None"
  let ?evs = "[NewConfig 0 (example_nc 8), NewConfig 0 (example_nc 9),
       NewConfig 0 (example_nc 10), ProcessingFinished (example_nc 8)]"
  note t = pipeline_ordered_preserved [where D = example_deps and s = ?s and m = 64 and
      tr = 1 and evs = ?evs and now = 0 and nc = None]
  have i: "pipeline_ordered ?s"
    using t [THEN conjunct1] by (simp add: example_state_def initial_ncm_def)
  from t [THEN conjunct2, rule_format, OF i, THEN conjunct2, THEN conjunct2, THEN conjunct2,
      THEN conjunct1, rule_format, OF example_burst_run]
  have "pipeline_ordered
     ((example_state 64 (Some (example_nc 8)) (Some (example_nc 10)) None)\<lparr>tracker := 4\<rparr>)" .
  then show ?thesis using i example_burst_run by (intro conjI)
qed

section \<open>Staging a delivered configuration\<close>

lemma map_filter_append: "List.map_filter f (a @ b) = List.map_filter f a @ List.map_filter f b"
  by (simp add: List.map_filter_def)

lemmas versions_defs =
  staged_versions_def fanout_versions_def published_versions_def
  staged_of_def fanout_of_def published_of_def

lemma versions_Nil [simp]:
  "staged_versions [] = []" "fanout_versions [] = []" "published_versions [] = []"
  by (simp_all add: staged_versions_def fanout_versions_def published_versions_def)

lemma advance_effects:
  "advanceIntermediaryShardStates D now s = (es, s') \<Longrightarrow>
     staged_versions es = [] \<and> fanout_versions es = [] \<and> published_versions es = []"
  by (auto simp: advanceIntermediaryShardStates_def update_single_def update_def Let_def
      versions_defs split: if_splits prod.splits option.splits)

lemma maybeProcessStagedConfig_summary:
  fixes s :: "('f, 'p, 't) ncm"
  assumes "(maybeProcessStagedConfig s :: failure + ('p, 'u) effect list \<times> ('f, 'p, 't) ncm) =
           Inr (es, s')"
  shows "staged_versions es = [] \<and> published_versions es = [] \<and>
     local_nodes_config s' = local_nodes_config s \<and>
     shutdown_signaled s' = shutdown_signaled s \<and>
     ((staged_nodes_config s = None \<or> pending_nodes_config s \<noteq> None) \<and> s' = s \<and> es = [] \<or>
      (\<exists>st. staged_nodes_config s = Some st \<and> pending_nodes_config s = None \<and>
            \<not> hasProcessedVersion s (getVersion st) \<and>
            pending_nodes_config s' = Some st \<and> staged_nodes_config s' = None \<and>
            fanout_versions es = [getVersion st]))"
  using assms
  by (auto simp: maybeProcessStagedConfig_def versions_defs split: option.splits if_splits)

lemma onProcessingFinished_summary:
  fixes s :: "('f, 'p, 't) ncm"
  assumes "(onProcessingFinished s x :: failure + ('p, 'u) effect list \<times> ('f, 'p, 't) ncm) =
           Inr (es, s')"
  shows "\<exists>c p. x = Some c \<and> pending_nodes_config s = Some p \<and> getVersion c = getVersion p \<and>
     \<not> hasProcessedVersion s (getVersion p) \<and> local_nodes_config s' = Some p \<and>
     shutdown_signaled s' = shutdown_signaled s \<and>
     staged_versions es = [] \<and> published_versions es = [getVersion p] \<and>
     (case staged_nodes_config s of
        None \<Rightarrow> pending_nodes_config s' = None \<and> staged_nodes_config s' = None \<and>
                 fanout_versions es = []
      | Some st \<Rightarrow> getVersion p < getVersion st \<and> pending_nodes_config s' = Some st \<and>
                   staged_nodes_config s' = None \<and> fanout_versions es = [getVersion st])"
proof -
  from assms obtain c p es2 where
    x: "x = Some c" and p: "pending_nodes_config s = Some p"
    and v: "getVersion c = getVersion p" and np: "\<not> hasProcessedVersion s (getVersion p)"
    and mp: "(maybeProcessStagedConfig
               (s\<lparr>local_nodes_config := Some p, pending_nodes_config := None\<rparr>)
             :: failure + ('p, 'u) effect list \<times> ('f, 'p, 't) ncm) = Inr (es2, s')"
    and es: "es = [InitializedPost, StatIncr config_published,
                   StatSet published_version (getVersion p)] @ es2"
    by (auto simp: onProcessingFinished_def Let_def split: option.splits if_splits sum.splits)
  note m = maybeProcessStagedConfig_summary [OF mp]
  have pv: "published_versions es = [getVersion p]" "staged_versions es = []"
    "fanout_versions es = fanout_versions es2"
    using m unfolding es by (simp_all add: versions_defs map_filter_append)
  show ?thesis
    using x p v np m pv
    by (cases "staged_nodes_config s") (auto simp: hasProcessedVersion_def not_le)
qed

lemma onNewConfig_summary:
  fixes D :: "('a::len word, 'p, 'u, 't) deps"
  assumes "onNewConfig D now s x = Inr (es, s')"
  shows "\<exists>c. x = Some c \<and> local_nodes_config s' = local_nodes_config s \<and>
     shutdown_signaled s' = shutdown_signaled s \<and>
     published_versions es = [] \<and>
     ((shutdownSignaled s \<or> \<not> shouldStageVersion s (getVersion c)) \<and> s' = s \<and> es = [] \<or>
      \<not> shutdownSignaled s \<and> shouldStageVersion s (getVersion c) \<and>
      staged_versions es = [getVersion c] \<and>
      (case pending_nodes_config s of
         None \<Rightarrow> pending_nodes_config s' = Some c \<and> staged_nodes_config s' = None \<and>
                  fanout_versions es = [getVersion c]
       | Some p \<Rightarrow> pending_nodes_config s' = Some p \<and> staged_nodes_config s' = Some c \<and>
                   fanout_versions es = []))"
proof -
  from assms obtain c where x: "x = Some c"
    by (cases x) (auto simp: onNewConfig_def)
  show ?thesis
  proof (cases "shutdownSignaled s \<or> \<not> shouldStageVersion s (getVersion c)")
    case True
    then have "s' = s" "es = []"
      using assms x by (auto simp: onNewConfig_def Let_def split: if_splits)
    then show ?thesis using True x by (simp add: versions_defs)
  next
    case False
    let ?s2 = "s\<lparr>staged_nodes_config := Some c,
                 tracker := tracker_onNewConfig D (tracker s) c\<rparr>"
    obtain ea s3 where adv: "advanceIntermediaryShardStates D now ?s2 = (ea, s3)"
      by (cases "advanceIntermediaryShardStates D now ?s2")
    have sl: "local_nodes_config s3 = local_nodes_config s"
      "pending_nodes_config s3 = pending_nodes_config s"
      "staged_nodes_config s3 = Some c" "shutdown_signaled s3 = shutdown_signaled s"
      using adv
      by (auto simp: advanceIntermediaryShardStates_def update_single_def update_def Let_def
          split: if_splits prod.splits option.splits)
    note ae = advance_effects [OF adv]
    from assms x False adv sl obtain em where
      mp: "(maybeProcessStagedConfig s3 ::
             failure + ('p, 'u) effect list \<times> ('a word, 'p, 't) ncm) = Inr (em, s')"
      and es: "es = ea @ [StatSet staged_version (getVersion c)] @ em"
      by (auto simp: onNewConfig_def Let_def split: sum.splits)
    note m = maybeProcessStagedConfig_summary [OF mp]
    have vs: "staged_versions es = [getVersion c]" "published_versions es = []"
      "fanout_versions es = fanout_versions em"
      using m ae unfolding es
      by (simp_all add: staged_versions_def fanout_versions_def published_versions_def
          map_filter_append) (simp_all add: staged_of_def fanout_of_def published_of_def)
    show ?thesis
      using x False m sl vs
      by (cases "pending_nodes_config s") auto
  qed
qed

lemma shouldStageVersion_iff:
  "shouldStageVersion s v \<longleftrightarrow>
     (\<forall>c. Some c \<in> {staged_nodes_config s, pending_nodes_config s, local_nodes_config s}
          \<longrightarrow> getVersion c < v)"
  by (auto simp: shouldStageVersion_def isProcessingEqualOrHigherVersion_def
      hasProcessedVersion_def not_le split: option.splits)

lemma upgrade_slots:
  "local_nodes_config (ncm_upgradeToProposer D s) = local_nodes_config s"
  "pending_nodes_config (ncm_upgradeToProposer D s) = pending_nodes_config s"
  "staged_nodes_config (ncm_upgradeToProposer D s) = staged_nodes_config s"
  by (simp_all add: ncm_upgradeToProposer_def)

text \<open>What a transition does to the three slots and which versions it stages, fans out and
  publishes.\<close>

lemma step_summary:
  fixes D :: "('a::len word, 'p, 'u, 't) deps"
  assumes "step D s ev = Inr (es, s')"
  defines "l \<equiv> local_nodes_config s" and "p \<equiv> pending_nodes_config s"
    and "g \<equiv> staged_nodes_config s"
    and "l' \<equiv> local_nodes_config s'" and "p' \<equiv> pending_nodes_config s'"
    and "g' \<equiv> staged_nodes_config s'"
    and "sv \<equiv> staged_versions es" and "fv \<equiv> fanout_versions es"
    and "pv \<equiv> published_versions es"
  shows
    "(l' = l \<and> p' = p \<and> g' = g \<and> sv = [] \<and> fv = [] \<and> pv = []) \<or>
     (\<exists>c. shouldStageVersion s (getVersion c) \<and> p \<noteq> None \<and>
          l' = l \<and> p' = p \<and> g' = Some c \<and> sv = [getVersion c] \<and> fv = [] \<and> pv = []) \<or>
     (\<exists>c. shouldStageVersion s (getVersion c) \<and> p = None \<and>
          l' = l \<and> p' = Some c \<and> g' = None \<and>
          sv = [getVersion c] \<and> fv = [getVersion c] \<and> pv = []) \<or>
     (\<exists>c. g = Some c \<and> p = None \<and> \<not> hasProcessedVersion s (getVersion c) \<and>
          l' = l \<and> p' = Some c \<and> g' = None \<and> sv = [] \<and> fv = [getVersion c] \<and> pv = []) \<or>
     (\<exists>c. p = Some c \<and> g = None \<and> \<not> hasProcessedVersion s (getVersion c) \<and>
          l' = Some c \<and> p' = None \<and> g' = None \<and> sv = [] \<and> fv = [] \<and> pv = [getVersion c]) \<or>
     (\<exists>c d. p = Some c \<and> g = Some d \<and> \<not> hasProcessedVersion s (getVersion c) \<and>
          getVersion c < getVersion d \<and>
          l' = Some c \<and> p' = Some d \<and> g' = None \<and>
          sv = [] \<and> fv = [getVersion d] \<and> pv = [getVersion c])"
proof (cases ev)
  case (NewConfig now nc)
  with assms(1) have "onNewConfig D now s (Some nc) = Inr (es, s')" by simp
  from onNewConfig_summary [OF this] show ?thesis
    unfolding l_def p_def g_def l'_def p'_def g'_def sv_def fv_def pv_def
    by (cases "pending_nodes_config s") auto
next
  case (ProcessingFinished nc)
  with assms(1) have "onProcessingFinished s (Some nc) = Inr (es, s')" by simp
  from onProcessingFinished_summary [OF this] show ?thesis
    unfolding l_def p_def g_def l'_def p'_def g'_def sv_def fv_def pv_def
    by (cases "staged_nodes_config s") auto
next
  case ProcessStaged
  with assms(1) have "maybeProcessStagedConfig s = Inr (es, s')" by simp
  from maybeProcessStagedConfig_summary [OF this] show ?thesis
    unfolding l_def p_def g_def l'_def p'_def g'_def sv_def fv_def pv_def
    by auto
next
  case UpgradeToProposer
  with assms(1) show ?thesis
    unfolding l_def p_def g_def l'_def p'_def g'_def sv_def fv_def pv_def
    by (auto simp: upgrade_slots)
next
  case Shutdown
  with assms(1) show ?thesis
    unfolding l_def p_def g_def l'_def p'_def g'_def sv_def fv_def pv_def
    by (auto simp: shutdown_def versions_defs)
qed

lemma hasProcessedVersion_iff:
  "hasProcessedVersion s v \<longleftrightarrow> (\<exists>c. local_nodes_config s = Some c \<and> v \<le> getVersion c)"
  by (auto simp: hasProcessedVersion_def split: option.splits)

lemma isProcessingEqualOrHigherVersion_iff:
  "isProcessingEqualOrHigherVersion s v \<longleftrightarrow>
     (\<exists>c. pending_nodes_config s = Some c \<and> v \<le> getVersion c)"
  by (auto simp: isProcessingEqualOrHigherVersion_def split: option.splits)

lemma shouldStageVersion_slots:
  "shouldStageVersion s v \<longleftrightarrow>
     (\<forall>c. staged_nodes_config s = Some c \<longrightarrow> getVersion c < v) \<and>
     (\<forall>c. pending_nodes_config s = Some c \<longrightarrow> getVersion c < v) \<and>
     (\<forall>c. local_nodes_config s = Some c \<longrightarrow> getVersion c < v)"
  by (auto simp: shouldStageVersion_def isProcessingEqualOrHigherVersion_def
      hasProcessedVersion_def not_le split: option.splits)

lemma version_le_less: "(v :: version_t) \<le> a \<Longrightarrow> a < b \<Longrightarrow> v \<le> b"
  by simp

lemma run_increasing:
  fixes D :: "('a::len word, 'p, 'u, 't) deps"
    and f :: "('p, 'u) effect list \<Rightarrow> version_t list"
    and K :: "('a word, 'p, 't) ncm \<Rightarrow> version_t \<Rightarrow> bool"
  assumes ev: "\<And>s ev es s' v. step D s ev = Inr (es, s') \<Longrightarrow> v \<in> set (f es) \<Longrightarrow>
                 \<not> K s v \<and> K s' v"
    and one: "\<And>s ev es s'. step D s ev = Inr (es, s') \<Longrightarrow> length (f es) \<le> 1"
    and mono: "\<And>s ev es s' v. step D s ev = Inr (es, s') \<Longrightarrow> K s v \<Longrightarrow> K s' v"
    and sep: "\<And>s x y. K s x \<Longrightarrow> \<not> K s y \<Longrightarrow> x < y"
    and app: "\<And>a b. f (a @ b) = f a @ f b" and nil: "f [] = []"
  shows "run D s evs = Inr (es, s') \<Longrightarrow>
     sorted_wrt (<) (f es) \<and> (\<forall>v\<in>set (f es). \<not> K s v \<and> K s' v) \<and> (\<forall>v. K s v \<longrightarrow> K s' v)"
proof (induction evs arbitrary: s es)
  case Nil
  then show ?case by (simp add: nil)
next
  case (Cons e evs)
  from Cons.prems obtain es1 s1 es2 where
    st: "step D s e = Inr (es1, s1)" and rn: "run D s1 evs = Inr (es2, s')"
    and es: "es = es1 @ es2"
    by (auto split: sum.splits)
  note ih = Cons.IH [OF rn]
  have s1: "sorted_wrt (<) (f es1)"
  proof (cases "f es1")
    case Nil
    then show ?thesis by simp
  next
    case (Cons a as)
    with one [OF st] have "as = []" by simp
    with Cons show ?thesis by simp
  qed
  have cross: "x < y" if "x \<in> set (f es1)" "y \<in> set (f es2)" for x y
  proof -
    from ev [OF st that(1)] have "K s1 x" by simp
    moreover from ih that(2) have "\<not> K s1 y" by blast
    ultimately show ?thesis by (rule sep)
  qed
  have srt: "sorted_wrt (<) (f es)"
    unfolding es app using s1 ih cross by (simp add: sorted_wrt_append)
  have mem: "\<not> K s v \<and> K s' v" if "v \<in> set (f es)" for v
  proof -
    from that have "v \<in> set (f es1) \<or> v \<in> set (f es2)" unfolding es app by simp
    then show ?thesis
    proof
      assume "v \<in> set (f es1)"
      from ev [OF st this] ih show ?thesis by blast
    next
      assume "v \<in> set (f es2)"
      with ih have "\<not> K s1 v" "K s' v" by blast+
      moreover have "\<not> K s v" using mono [OF st] \<open>\<not> K s1 v\<close> by blast
      ultimately show ?thesis by simp
    qed
  qed
  have mn: "\<forall>v. K s v \<longrightarrow> K s' v"
    using mono [OF st] ih by blast
  show ?case using srt mem mn by blast
qed

lemma run_staged_increasing:
  fixes D :: "('a::len word, 'p, 'u, 't) deps"
  assumes "run D s evs = Inr (es, s')"
  shows "sorted_wrt (<) (staged_versions es) \<and>
     (\<forall>v\<in>set (staged_versions es). shouldStageVersion s v \<and> \<not> shouldStageVersion s' v)"
proof -
  have "sorted_wrt (<) (staged_versions es) \<and>
     (\<forall>v\<in>set (staged_versions es).
        \<not> \<not> shouldStageVersion s v \<and> \<not> shouldStageVersion s' v) \<and>
     (\<forall>v. \<not> shouldStageVersion s v \<longrightarrow> \<not> shouldStageVersion s' v)"
  proof (rule run_increasing [where K = "\<lambda>s v. \<not> shouldStageVersion s v" and D = D, OF _ _ _ _ _ _ assms])
    fix s :: "('a word, 'p, 't) ncm" and ev es s' v
    assume st: "step D s ev = Inr (es, s')"
    { assume "v \<in> set (staged_versions es)"
      then show "\<not> \<not> shouldStageVersion s v \<and> \<not> shouldStageVersion s' v"
        using step_summary [OF st] by (auto simp: shouldStageVersion_slots) }
    show "length (staged_versions es) \<le> 1"
      using step_summary [OF st] by auto
    { assume "\<not> shouldStageVersion s v"
      then show "\<not> shouldStageVersion s' v"
        using step_summary [OF st]
        by (auto simp: shouldStageVersion_slots hasProcessedVersion_iff not_le not_less
            dest: version_le_less) }
  next
    fix s :: "('a word, 'p, 't) ncm" and x y
    assume "\<not> shouldStageVersion s x" "\<not> \<not> shouldStageVersion s y"
    then show "x < y" by (auto simp: shouldStageVersion_slots not_less)
  next
    fix a b :: "('p, 'u) effect list"
    show "staged_versions (a @ b) = staged_versions a @ staged_versions b"
      by (simp add: staged_versions_def map_filter_append)
  next
    show "staged_versions ([] :: ('p, 'u) effect list) = []" by simp
  qed
  then show ?thesis by simp
qed

lemma run_fanout_increasing:
  fixes D :: "('a::len word, 'p, 'u, 't) deps"
  assumes "run D s evs = Inr (es, s')"
  shows "sorted_wrt (<) (fanout_versions es)"
proof -
  let ?K = "\<lambda>(s :: ('a word, 'p, 't) ncm) v.
              isProcessingEqualOrHigherVersion s v \<or> hasProcessedVersion s v"
  have "sorted_wrt (<) (fanout_versions es) \<and>
     (\<forall>v\<in>set (fanout_versions es). \<not> ?K s v \<and> ?K s' v) \<and> (\<forall>v. ?K s v \<longrightarrow> ?K s' v)"
  proof (rule run_increasing [where K = ?K and D = D, OF _ _ _ _ _ _ assms])
    fix s :: "('a word, 'p, 't) ncm" and ev es s' v
    assume st: "step D s ev = Inr (es, s')"
    { assume "v \<in> set (fanout_versions es)"
      then show "\<not> ?K s v \<and> ?K s' v"
        using step_summary [OF st]
        by (auto simp: shouldStageVersion_slots hasProcessedVersion_iff
            isProcessingEqualOrHigherVersion_iff not_le not_less) }
    show "length (fanout_versions es) \<le> 1"
      using step_summary [OF st] by auto
    { assume "?K s v"
      then show "?K s' v"
        using step_summary [OF st]
        by (auto simp: shouldStageVersion_slots hasProcessedVersion_iff
            isProcessingEqualOrHigherVersion_iff not_le not_less dest: version_le_less) }
  next
    fix s :: "('a word, 'p, 't) ncm" and x y
    assume "?K s x" "\<not> ?K s y"
    then show "x < y"
      by (auto simp: hasProcessedVersion_iff isProcessingEqualOrHigherVersion_iff not_le)
  next
    fix a b :: "('p, 'u) effect list"
    show "fanout_versions (a @ b) = fanout_versions a @ fanout_versions b"
      by (simp add: fanout_versions_def map_filter_append)
  next
    show "fanout_versions ([] :: ('p, 'u) effect list) = []" by simp
  qed
  then show ?thesis by simp
qed

lemma run_published_increasing:
  fixes D :: "('a::len word, 'p, 'u, 't) deps"
  assumes "run D s evs = Inr (es, s')"
  shows "sorted_wrt (<) (published_versions es)"
proof -
  let ?K = "\<lambda>(s :: ('a word, 'p, 't) ncm) v. hasProcessedVersion s v"
  have "sorted_wrt (<) (published_versions es) \<and>
     (\<forall>v\<in>set (published_versions es). \<not> ?K s v \<and> ?K s' v) \<and> (\<forall>v. ?K s v \<longrightarrow> ?K s' v)"
  proof (rule run_increasing [where K = ?K and D = D, OF _ _ _ _ _ _ assms])
    fix s :: "('a word, 'p, 't) ncm" and ev es s' v
    assume st: "step D s ev = Inr (es, s')"
    { assume "v \<in> set (published_versions es)"
      then show "\<not> ?K s v \<and> ?K s' v"
        using step_summary [OF st]
        by (auto simp: hasProcessedVersion_iff not_le not_less) }
    show "length (published_versions es) \<le> 1"
      using step_summary [OF st] by auto
    { assume "?K s v"
      then show "?K s' v"
        using step_summary [OF st]
        by (auto simp: hasProcessedVersion_iff not_le not_less dest: version_le_less) }
  next
    fix s :: "('a word, 'p, 't) ncm" and x y
    assume "?K s x" "\<not> ?K s y"
    then show "x < y"
      by (auto simp: hasProcessedVersion_iff not_le)
  next
    fix a b :: "('p, 'u) effect list"
    show "published_versions (a @ b) = published_versions a @ published_versions b"
      by (simp add: published_versions_def map_filter_append)
  next
    show "published_versions ([] :: ('p, 'u) effect list) = []" by simp
  qed
  then show ?thesis by simp
qed

lemma onNewConfig_drop:
  "shutdownSignaled s \<or> \<not> shouldStageVersion s (getVersion c) \<Longrightarrow>
     onNewConfig D now s (Some c) = Inr ([], s)"
  by (auto simp: onNewConfig_def Let_def)

lemma run_redeliver:
  "shutdownSignaled s \<or> \<not> shouldStageVersion s (getVersion c) \<Longrightarrow>
     run D s (map (\<lambda>t. NewConfig t c) nows) = Inr ([], s)"
  by (induction nows) (simp_all add: onNewConfig_drop)

lemma onNewConfig_then_known:
  fixes D :: "('a::len word, 'p, 'u, 't) deps"
  assumes "onNewConfig D now s (Some c) = Inr (es, s')"
  shows "shutdownSignaled s' \<or> \<not> shouldStageVersion s' (getVersion c)"
  using onNewConfig_summary [OF assms]
  by (cases "pending_nodes_config s")
    (auto simp: shouldStageVersion_slots shutdownSignaled_def)

text \<open>
  C3. While shutdown is not signaled, a configuration delivered to \<open>onNewConfig\<close> is staged
  exactly when its version is strictly above the version of every slot (staged, pending,
  local) that holds a configuration; otherwise nothing happens and the manager is
  unchanged. Once staged it sits in the staged slot, or in the pending slot when none was
  pending, and local is untouched. A configuration of the same version delivered again,
  at once or later in any run of transitions, is dropped: N deliveries in a row are one
  delivery, and in every run the versions staged, the versions handed to the workers and
  the versions published are strictly increasing, so none occurs twice.
\<close>

theorem onNewConfig_stages_newer_once:
  fixes D :: "('a::len word, 'p, 'u, 't) deps" and s :: "('a word, 'p, 't) ncm"
    and now nc
  defines "v \<equiv> getVersion nc"
  assumes live: "\<not> shutdownSignaled s"
  shows
  "(shouldStageVersion s v \<longleftrightarrow>
      (\<forall>c. Some c \<in> {staged_nodes_config s, pending_nodes_config s, local_nodes_config s}
           \<longrightarrow> getVersion c < v)) \<and>
   (\<not> shouldStageVersion s v \<longrightarrow> onNewConfig D now s (Some nc) = Inr ([], s)) \<and>
   (shouldStageVersion s v \<longrightarrow>
      (\<exists>es s'. onNewConfig D now s (Some nc) = Inr (es, s') \<and>
         staged_versions es = [v] \<and> local_nodes_config s' = local_nodes_config s \<and>
         (case pending_nodes_config s of
            None \<Rightarrow> pending_nodes_config s' = Some nc \<and> staged_nodes_config s' = None
          | Some p \<Rightarrow> pending_nodes_config s' = Some p \<and> staged_nodes_config s' = Some nc))) \<and>
   (\<forall>es s' now' nc'.
      onNewConfig D now s (Some nc) = Inr (es, s') \<and> getVersion nc' = v \<longrightarrow>
      onNewConfig D now' s' (Some nc') = Inr ([], s')) \<and>
   (\<forall>nows. run D s (map (\<lambda>t. NewConfig t nc) (now # nows)) = onNewConfig D now s (Some nc)) \<and>
   (\<forall>evs es s'. run D s evs = Inr (es, s') \<longrightarrow>
      sorted_wrt (<) (staged_versions es) \<and> sorted_wrt (<) (fanout_versions es) \<and>
      sorted_wrt (<) (published_versions es))"
proof -
  have a1: "shouldStageVersion s v \<longleftrightarrow>
      (\<forall>c. Some c \<in> {staged_nodes_config s, pending_nodes_config s, local_nodes_config s}
           \<longrightarrow> getVersion c < v)"
    by (rule shouldStageVersion_iff)
  have a2: "\<not> shouldStageVersion s v \<longrightarrow> onNewConfig D now s (Some nc) = Inr ([], s)"
    unfolding v_def by (simp add: onNewConfig_drop)
  have a3: "shouldStageVersion s v \<longrightarrow>
      (\<exists>es s'. onNewConfig D now s (Some nc) = Inr (es, s') \<and>
         staged_versions es = [v] \<and> local_nodes_config s' = local_nodes_config s \<and>
         (case pending_nodes_config s of
            None \<Rightarrow> pending_nodes_config s' = Some nc \<and> staged_nodes_config s' = None
          | Some p \<Rightarrow> pending_nodes_config s' = Some p \<and> staged_nodes_config s' = Some nc))"
  proof
    assume sh: "shouldStageVersion s v"
    from onNewConfig_total [of D now s nc] obtain es s' where
      r: "onNewConfig D now s (Some nc) = Inr (es, s')" by blast
    from onNewConfig_summary [OF r] sh live
    have "staged_versions es = [v] \<and> local_nodes_config s' = local_nodes_config s \<and>
         (case pending_nodes_config s of
            None \<Rightarrow> pending_nodes_config s' = Some nc \<and> staged_nodes_config s' = None
          | Some p \<Rightarrow> pending_nodes_config s' = Some p \<and> staged_nodes_config s' = Some nc)"
      unfolding v_def by (cases "pending_nodes_config s") auto
    with r show "\<exists>es s'. onNewConfig D now s (Some nc) = Inr (es, s') \<and>
         staged_versions es = [v] \<and> local_nodes_config s' = local_nodes_config s \<and>
         (case pending_nodes_config s of
            None \<Rightarrow> pending_nodes_config s' = Some nc \<and> staged_nodes_config s' = None
          | Some p \<Rightarrow> pending_nodes_config s' = Some p \<and> staged_nodes_config s' = Some nc)"
      by blast
  qed
  have a4: "\<forall>es s' now' nc'.
      onNewConfig D now s (Some nc) = Inr (es, s') \<and> getVersion nc' = v \<longrightarrow>
      onNewConfig D now' s' (Some nc') = Inr ([], s')"
  proof (intro allI impI)
    fix es s' now' and nc' :: "'p NodesConfiguration"
    assume h: "onNewConfig D now s (Some nc) = Inr (es, s') \<and> getVersion nc' = v"
    then have "shutdownSignaled s' \<or> \<not> shouldStageVersion s' (getVersion nc')"
      using onNewConfig_then_known [of D now s nc es s'] unfolding v_def by simp
    then show "onNewConfig D now' s' (Some nc') = Inr ([], s')"
      by (rule onNewConfig_drop)
  qed
  have a5: "\<forall>nows. run D s (map (\<lambda>t. NewConfig t nc) (now # nows)) =
              onNewConfig D now s (Some nc)"
  proof
    fix nows
    from onNewConfig_total [of D now s nc] obtain es s' where
      r: "onNewConfig D now s (Some nc) = Inr (es, s')" by blast
    from onNewConfig_then_known [OF r]
    have "run D s' (map (\<lambda>t. NewConfig t nc) nows) = Inr ([], s')"
      by (rule run_redeliver)
    with r show "run D s (map (\<lambda>t. NewConfig t nc) (now # nows)) =
                   onNewConfig D now s (Some nc)"
      by simp
  qed
  have a6: "\<forall>evs es s'. run D s evs = Inr (es, s') \<longrightarrow>
      sorted_wrt (<) (staged_versions es) \<and> sorted_wrt (<) (fanout_versions es) \<and>
      sorted_wrt (<) (published_versions es)"
    using run_staged_increasing run_fanout_increasing run_published_increasing by blast
  show ?thesis
    by (intro conjI) (rule a1 a2 a3 a4 a5 a6)+
qed


theorem onNewConfig_stages_newer_once_witness:
  "\<not> shutdownSignaled (example_state 64 None None None) \<and>
   shouldStageVersion (example_state 64 None None None) (getVersion (example_nc 8)) \<and>
   onNewConfig example_deps 0 (example_state 64 None None None) (Some (example_nc 8)) =
     Inr ([StatSet staged_version 8, StatSet pending_version 8,
           UpdateNCMNodesConfiguration (example_nc 8), FulfillOnAllWorkers (example_nc 8)],
          (example_state 64 None (Some (example_nc 8)) None)\<lparr>tracker := 2\<rparr>) \<and>
   run example_deps (example_state 64 None None None)
       [NewConfig 0 (example_nc 8), NewConfig 1 (example_nc 8), NewConfig 2 (example_nc 8)] =
     Inr ([StatSet staged_version 8, StatSet pending_version 8,
           UpdateNCMNodesConfiguration (example_nc 8), FulfillOnAllWorkers (example_nc 8)],
          (example_state 64 None (Some (example_nc 8)) None)\<lparr>tracker := 2\<rparr>) \<and>
   \<not> shouldStageVersion ((example_state 64 None (Some (example_nc 8)) None)\<lparr>tracker := 2\<rparr>)
       (getVersion (example_nc 8)) \<and>
   onNewConfig example_deps 5
       ((example_state 64 None (Some (example_nc 8)) None)\<lparr>tracker := 2\<rparr>)
       (Some (example_nc 8)) =
     Inr ([], (example_state 64 None (Some (example_nc 8)) None)\<lparr>tracker := 2\<rparr>)"
proof -
  let ?s = "example_state 64 None None None"
  let ?s1 = "(example_state 64 None (Some (example_nc 8)) None)\<lparr>tracker := 2\<rparr>"
  have live: "\<not> shutdownSignaled ?s" "\<not> shutdownSignaled ?s1"
    by (simp_all add: shutdownSignaled_def example_state_def initial_ncm_def)
  note t = onNewConfig_stages_newer_once [OF live(1), where D = example_deps and now = 0
      and nc = "example_nc 8"]
  note t1 = onNewConfig_stages_newer_once [OF live(2), where D = example_deps and now = 5
      and nc = "example_nc 8"]
  have sh: "shouldStageVersion ?s (getVersion (example_nc 8))"
    using t [THEN conjunct1] by (simp add: example_state_def initial_ncm_def)
  have r: "run example_deps ?s
       [NewConfig 0 (example_nc 8), NewConfig 1 (example_nc 8), NewConfig 2 (example_nc 8)] =
     onNewConfig example_deps 0 ?s (Some (example_nc 8))"
    using t [THEN conjunct2, THEN conjunct2, THEN conjunct2, THEN conjunct2, THEN conjunct1,
        rule_format, of "[1, 2]"]
    by simp
  have nsh: "\<not> shouldStageVersion ?s1 (getVersion (example_nc 8))"
    using t1 [THEN conjunct1] by (simp add: example_state_def initial_ncm_def)
  from t1 [THEN conjunct2, THEN conjunct1, rule_format, OF nsh]
  have d: "onNewConfig example_deps 5 ?s1 (Some (example_nc 8)) = Inr ([], ?s1)" .
  show ?thesis
    using live(1) sh r nsh d by (simp add: example_step1)
qed

end
